theory Spec2Isabelle
  imports Main "HOL-Library.Word" "HOL-Library.Multiset"
begin

section \<open>Data model\<close>

type_synonym byte = "8 word"
type_synonym uint16 = "16 word"
type_synonym uint32 = "32 word"

text \<open>
  Wall-clock instants (\<open>time.Time\<close>) and durations (\<open>time.Duration\<close>) are counted in
  nanoseconds. Instant \<open>0\<close> is Go's zero \<open>time.Time\<close>, the one \<open>IsZero\<close> recognises.
\<close>

type_synonym Time = int
type_synonym Duration = int

datatype LayerType = LayerTypeIPv4 | LayerTypeIPv6

text \<open>An IP address (\<open>net.IP\<close>) of either family.\<close>

datatype IP = IPv4Addr "32 word" | IPv6Addr "128 word"

text \<open>
  The implementations of \<open>net.Addr\<close>. The string of an address, under which the
  tables of clients are keyed, is \<open>ip:port\<close> for a TCP and for a UDP address alike and
  the bare \<open>ip\<close> for an IP address; it is represented by the pair it is printed from.
\<close>

datatype Addr = TCPAddr IP int | UDPAddr IP int | IPAddr IP

type_synonym AddrString = "IP \<times> int option"

fun String :: "Addr \<Rightarrow> AddrString" where
  "String (TCPAddr ip port) = (ip, Some port)"
| "String (UDPAddr ip port) = (ip, Some port)"
| "String (IPAddr ip) = (ip, None)"

text \<open>
  The error kinds of the package. The wrappers the source puts around them
  (\<open>fmt.Errorf("...: %w", err)\<close> and \<open>net.OpError\<close>) carry diagnostics only and are left
  out; \<open>Panic\<close> stands for a Go run-time panic (a slice out of range, an index out of
  range, a failed type assertion).
\<close>

datatype error =
    IncompleteFragments
  | UnsupportedNetworkLayer LayerType
  | UnsupportedTransportLayer
  | UnsupportedAddressType
  | RawIO
  | ParseError
  | CreateLayersError
  | Unauthorized AddrString
  | Unrecognized AddrString
  | EncryptError
  | DecryptError
  | Timeout
  | Panic

text \<open>
  The fields of \<open>layers.IPv4\<close> that this package reads or writes. \<open>Options\<close> are the
  option bytes that follow the fixed 20-byte header.
\<close>

record NetworkLayer =
  LayerType :: LayerType
  Id :: uint16
  SrcIP :: IP
  DstIP :: IP
  TTL :: "8 word"
  DF :: bool
  MF :: bool
  FragOffset :: uint16
  Options :: "byte list"

type_synonym LinkLayer = "byte list"

text \<open>
  Modelled from the spec: \<open>Serialize\<close>, \<open>ParsePacket\<close>, \<open>ParseEmbPacket\<close>,
  \<open>ParseRawPacket\<close> and the accessors of \<open>PacketIndicator\<close> live in the package's packet
  file, which is not part of the sources at hand. A wire frame is represented by the
  indicator it parses to: the optional link layer, the network header and the bytes the
  network header carries (the network payload). Serialising and parsing are inverse to
  each other on this representation and do not fail.
\<close>

record PacketIndicator =
  LinkLayer :: "LinkLayer option"
  NetworkLayer :: NetworkLayer
  NetworkPayload :: "byte list"

definition Serialize :: "LinkLayer option \<Rightarrow> NetworkLayer \<Rightarrow> byte list \<Rightarrow> PacketIndicator" where
  "Serialize linkLayer networkLayer payload =
     \<lparr>LinkLayer = linkLayer, NetworkLayer = networkLayer, NetworkPayload = payload\<rparr>"

text \<open>
  Modelled from the spec: the length of \<open>Serialize(networkLayer)\<close>, the serialised
  network header alone: 20 bytes and the options for IPv4, 40 bytes for IPv6.
\<close>

definition networkLayerDataLen :: "NetworkLayer \<Rightarrow> nat" where
  "networkLayerDataLen nl =
     (case LayerType nl of
        LayerTypeIPv4 \<Rightarrow> 20 + length (Options nl)
      | LayerTypeIPv6 \<Rightarrow> 40)"

text \<open>
  Modelled from the spec: \<open>FlagIPv4Layer(ipv4, df, mf, frag_offset)\<close> sets the two flags
  and the fragment offset of an IPv4 header.
\<close>

definition FlagIPv4Layer :: "NetworkLayer \<Rightarrow> bool \<Rightarrow> bool \<Rightarrow> uint16 \<Rightarrow> NetworkLayer" where
  "FlagIPv4Layer layer df mf offset = layer\<lparr>DF := df, MF := mf, FragOffset := offset\<rparr>"

text \<open>Modelled from the spec: the accessors of a parsed packet used by the defragmenter.\<close>

definition MoreFragments :: "PacketIndicator \<Rightarrow> bool" where
  "MoreFragments ind = MF (NetworkLayer ind)"

definition FragOffsetOf :: "PacketIndicator \<Rightarrow> uint16" where
  "FragOffsetOf ind = FragOffset (NetworkLayer ind)"

definition NetworkId :: "PacketIndicator \<Rightarrow> uint16" where
  "NetworkId ind = Id (NetworkLayer ind)"

definition IsFrag :: "PacketIndicator \<Rightarrow> bool" where
  "IsFrag ind = (MoreFragments ind \<or> FragOffsetOf ind \<noteq> 0)"

section \<open>The fragmenter\<close>

text \<open>Go's integer division truncates towards zero.\<close>

definition quo :: "int \<Rightarrow> int \<Rightarrow> int" where
  "quo a b = sgn a * sgn b * (\<bar>a\<bar> div \<bar>b\<bar>)"

definition min_go :: "int \<Rightarrow> int \<Rightarrow> int" where
  "min_go a b = (if a > b then b else a)"

text \<open>
  The slice expression \<open>s[lo:hi]\<close>; \<open>None\<close> is the run-time panic. The slices taken here
  never reach beyond the length, so the capacity plays no part.
\<close>

definition slice :: "'a list \<Rightarrow> int \<Rightarrow> int \<Rightarrow> 'a list option" where
  "slice s lo hi =
     (if 0 \<le> lo \<and> lo \<le> hi \<and> hi \<le> int (length s)
      then Some (take (nat (hi - lo)) (drop (nat lo) s))
      else None)"

text \<open>
  One pass through the head of the loop body of \<open>CreateFragmentPackets\<close>: the length of
  the fragment cut at cursor \<open>i\<close> and what remains after it. \<open>room\<close> is
  \<open>fragment - len(networkLayerData)\<close> and \<open>n\<close> is \<open>len(networkLayerPayload)\<close>.
\<close>

definition fragmentLength :: "int \<Rightarrow> int \<Rightarrow> int \<Rightarrow> int \<times> int" where
  "fragmentLength room n i =
     (let length0 = min_go room (n - i);
          remain0 = n - i - length0;
          length1 = (if remain0 > 0 then quo length0 8 * 8 else length0);
          remain1 = (if remain0 > 0 then n - i - length1 else remain0);
          length2 = (if remain1 > 0 \<and> remain1 < 8 then length1 - 8 else length1);
          remain2 = (if remain1 > 0 \<and> remain1 < 8 then n - i - length2 else remain1)
      in (length2, remain2))"

text \<open>
  The loop \<open>for i := 0; i < len(networkLayerPayload); { ... }\<close>. Nothing in the source
  bounds the number of passes, so the loop is a partial function: \<open>None\<close> means that it
  never returns.
\<close>

partial_function (option) createFragments ::
  "LinkLayer option \<Rightarrow> NetworkLayer \<Rightarrow> byte list \<Rightarrow> int \<Rightarrow> int \<Rightarrow> PacketIndicator list
     \<Rightarrow> (error + PacketIndicator list) option" where
  "createFragments linkLayer newNetworkLayer networkLayerPayload room i fragments =
     (if i < int (length networkLayerPayload) then
        (case fragmentLength room (int (length networkLayerPayload)) i of
           (len, remain) \<Rightarrow>
             (case LayerType newNetworkLayer of
                LayerTypeIPv4 \<Rightarrow>
                  (let ipv4Layer = FlagIPv4Layer newNetworkLayer False (\<not> remain \<le> 0)
                                     (word_of_int (quo i 8))
                   in case slice networkLayerPayload i (i + len) of
                        None \<Rightarrow> Some (Inl Panic)
                      | Some body \<Rightarrow>
                          createFragments linkLayer ipv4Layer networkLayerPayload room (i + len)
                            (fragments @ [Serialize linkLayer ipv4Layer body]))
              | t \<Rightarrow> Some (Inl (UnsupportedNetworkLayer t))))
      else Some (Inr fragments))"

text \<open>
  \<open>CreateFragmentPackets\<close>. The transport layer enters as its serialised bytes
  (\<open>[]\<close> when \<open>transportLayer == nil\<close>), so that \<open>networkLayerPayload\<close> is the transport
  header followed by the payload.
\<close>

definition CreateFragmentPackets ::
  "LinkLayer option \<Rightarrow> NetworkLayer \<Rightarrow> byte list \<Rightarrow> byte list \<Rightarrow> int
     \<Rightarrow> (error + PacketIndicator list) option" where
  "CreateFragmentPackets linkLayer networkLayer transportLayer payload fragment =
     (let networkLayerData = int (networkLayerDataLen networkLayer);
          networkLayerPayload = transportLayer @ payload
      in if networkLayerData + int (length networkLayerPayload) > fragment then
           (case LayerType networkLayer of
              LayerTypeIPv4 \<Rightarrow>
                createFragments linkLayer networkLayer networkLayerPayload
                  (fragment - networkLayerData) 0 []
            | t \<Rightarrow> Some (Inl (UnsupportedNetworkLayer t)))
         else Some (Inr [Serialize linkLayer networkLayer networkLayerPayload]))"

section \<open>The fragment indicator and the easy defragmenter\<close>

type_synonym fragFlow = "uint16 \<times> IP"

record fragIndicator =
  length' :: uint16
  offset :: uint16
  frags :: "PacketIndicator list"
  lastSeen :: Time

text \<open>\<open>newFragIndicator\<close>; the argument is the reading of \<open>time.Now()\<close>.\<close>

definition newFragIndicator :: "Time \<Rightarrow> fragIndicator" where
  "newFragIndicator now = \<lparr>length' = 0, offset = 0, frags = [], lastSeen = now\<rparr>"

text \<open>
  \<open>fragIndicator.append\<close>. \<open>sort.Slice\<close> is given the comparison of the fragment offsets;
  it is rendered by the library's insertion sort on that key. The two agree whenever the
  offsets in the list are pairwise different, and \<open>sort.Slice\<close> promises no particular
  order of equal keys.
\<close>

definition append_frag :: "fragIndicator \<Rightarrow> Time \<Rightarrow> PacketIndicator \<Rightarrow> fragIndicator" where
  "append_frag indicator now ind =
     (let indicator1 = indicator\<lparr>frags := frags indicator @ [ind], lastSeen := now\<rparr>;
          indicator2 =
            (if MoreFragments ind
             then indicator1\<lparr>length' := length' indicator1 + of_nat (length (NetworkPayload ind))\<rparr>
             else indicator1\<lparr>offset := FragOffsetOf ind\<rparr>)
      in if length (frags indicator2) \<le> 1 then indicator2
         else indicator2\<lparr>frags := sort_key FragOffsetOf (frags indicator2)\<rparr>)"

definition isCompleted :: "fragIndicator \<Rightarrow> bool" where
  "isCompleted indicator = (length' indicator div 8 = offset indicator)"

text \<open>
  \<open>fragIndicator.concatenate\<close>. Indexing \<open>frags[0]\<close> of an empty list is the run-time
  panic.
\<close>

definition concatenate :: "fragIndicator \<Rightarrow> error + PacketIndicator" where
  "concatenate indicator =
     (if \<not> isCompleted indicator then Inl IncompleteFragments
      else case frags indicator of
             [] \<Rightarrow> Inl Panic
           | first # _ \<Rightarrow>
               (case LayerType (NetworkLayer first) of
                  LayerTypeIPv4 \<Rightarrow>
                    (let newNetworkLayer = FlagIPv4Layer (NetworkLayer first) False False 0;
                         contents = concat (map NetworkPayload (frags indicator))
                     in Inr (Serialize (LinkLayer first) newNetworkLayer contents))
                | t \<Rightarrow> Inl (UnsupportedNetworkLayer t)))"

text \<open>
  The table of the easy defragmenter maps a flow to a pointer that may be \<open>nil\<close>:
  \<open>None\<close> is a missing key, \<open>Some None\<close> a key bound to \<open>nil\<close>.
\<close>

record EasyDefragmenter =
  frags_of :: "fragFlow \<rightharpoonup> fragIndicator option"
  deadline :: Duration

definition NewEasyDefragmenter :: EasyDefragmenter where
  "NewEasyDefragmenter = \<lparr>frags_of = Map.empty, deadline = 0\<rparr>"

definition SetDeadline :: "EasyDefragmenter \<Rightarrow> Duration \<Rightarrow> EasyDefragmenter" where
  "SetDeadline defrag t = defrag\<lparr>deadline := t\<rparr>"

text \<open>
  \<open>EasyDefragmenter.AppendOriginal\<close>, called at instant \<open>now\<close>. The indicator of the flow is
  updated in place through the pointer held by the table, so the table of the result
  holds the updated indicator. The result is the pair of the defragmented packet (\<open>None\<close>
  is \<open>nil\<close>) and the fragments it was made of.
\<close>

definition AppendOriginal ::
  "EasyDefragmenter \<Rightarrow> Time \<Rightarrow> PacketIndicator
     \<Rightarrow> EasyDefragmenter \<times> (error + PacketIndicator option \<times> PacketIndicator list)" where
  "AppendOriginal defrag now ind =
     (if \<not> IsFrag ind then (defrag, Inr (Some ind, [ind]))
      else
        let flow = (NetworkId ind, SrcIP (NetworkLayer ind));
            fragIndicator0 =
              (case frags_of defrag flow of
                 Some (Some found) \<Rightarrow> found
               | _ \<Rightarrow> newFragIndicator now);
            fragIndicator1 =
              (if deadline defrag > 0 \<and> now - lastSeen fragIndicator0 > deadline defrag
               then newFragIndicator now else fragIndicator0);
            fragIndicator2 = append_frag fragIndicator1 now ind
        in if \<not> isCompleted fragIndicator2
           then (defrag\<lparr>frags_of := (frags_of defrag)(flow \<mapsto> Some fragIndicator2)\<rparr>,
                 Inr (None, []))
           else
             (let defrag' = defrag\<lparr>frags_of := (frags_of defrag)(flow \<mapsto> None)\<rparr>
              in case concatenate fragIndicator2 of
                   Inl err \<Rightarrow> (defrag', Inl err)
                 | Inr indicator \<Rightarrow> (defrag', Inr (Some indicator, frags fragIndicator2))))"

definition Append ::
  "EasyDefragmenter \<Rightarrow> Time \<Rightarrow> PacketIndicator
     \<Rightarrow> EasyDefragmenter \<times> (error + PacketIndicator option)" where
  "Append defrag now ind =
     (case AppendOriginal defrag now ind of
        (defrag', Inl err) \<Rightarrow> (defrag', Inl err)
      | (defrag', Inr (indicator, _)) \<Rightarrow> (defrag', Inr indicator))"

text \<open>
  The reader hands the captured packets to \<open>Append\<close> one after the other; \<open>feed\<close> does so
  for a list of arrivals, each with its instant, and collects what \<open>Append\<close> returned.
\<close>

fun feed ::
  "EasyDefragmenter \<Rightarrow> (Time \<times> PacketIndicator) list
     \<Rightarrow> EasyDefragmenter \<times> (error + PacketIndicator option) list" where
  "feed defrag [] = (defrag, [])"
| "feed defrag ((now, ind) # rest) =
     (case Append defrag now ind of
        (defrag', r) \<Rightarrow> (case feed defrag' rest of (defrag'', rs) \<Rightarrow> (defrag'', r # rs)))"

text \<open>
  Modelled from the spec: the application payload of a parsed packet is what follows the
  transport header in the network payload; the parser (outside the sources at hand)
  knows the length of the transport header, which is an argument here.
\<close>

definition ApplicationPayload :: "nat \<Rightarrow> PacketIndicator \<Rightarrow> byte list" where
  "ApplicationPayload transportLen ind = drop transportLen (NetworkPayload ind)"

text \<open>Whether a fragment with the final flag setting (MF = 0) is among those appended.\<close>

definition finalSeen :: "fragIndicator \<Rightarrow> bool" where
  "finalSeen indicator = list_ex (\<lambda>ind. \<not> MoreFragments ind) (frags indicator)"

section \<open>The connection\<close>

text \<open>The fields of \<open>layers.TCP\<close> that this package reads or writes.\<close>

record TCP =
  SrcPort :: uint16
  DstPort :: uint16
  Seq :: uint32
  Ack :: uint32
  SYN :: bool
  FIN :: bool
  ACK :: bool

datatype TransportLayer = TCPLayer TCP | UDPLayer uint16 uint16

text \<open>
  A captured packet as the connection sees it after parsing: where it came from, its
  transport layer and its application layer (\<open>None\<close> when \<open>ApplicationLayer()\<close> is
  \<open>nil\<close>).
\<close>

record Packet =
  SrcHardwareAddr :: "byte list"
  PacketSrcIP :: IP
  TransportLayer :: TransportLayer
  ApplicationLayer :: "byte list option"

definition PacketSrcPort :: "Packet \<Rightarrow> uint16" where
  "PacketSrcPort packet =
     (case TransportLayer packet of TCPLayer t \<Rightarrow> SrcPort t | UDPLayer sp dp \<Rightarrow> sp)"

definition PacketDstPort :: "Packet \<Rightarrow> uint16" where
  "PacketDstPort packet =
     (case TransportLayer packet of TCPLayer t \<Rightarrow> DstPort t | UDPLayer sp dp \<Rightarrow> dp)"

text \<open>Modelled from the spec: \<open>Src()\<close>, the source address of a parsed packet.\<close>

definition Src :: "Packet \<Rightarrow> Addr" where
  "Src packet =
     (case TransportLayer packet of
        TCPLayer t \<Rightarrow> TCPAddr (PacketSrcIP packet) (uint (SrcPort t))
      | UDPLayer sp dp \<Rightarrow> UDPAddr (PacketSrcIP packet) (uint sp))"

text \<open>
  The cipher of a peer (\<open>crypto.Crypt\<close>, an interface of another package): any pair of
  functions that return bytes or refuse.
\<close>

record Crypt =
  Encrypt :: "byte list \<Rightarrow> error + byte list"
  Decrypt :: "byte list \<Rightarrow> error + byte list"

record clientIndicator =
  crypt :: Crypt
  seq :: uint32
  ack :: uint32

text \<open>
  The raw connection (\<open>RawConn\<close>, a collaborator). \<open>written\<close> lists the frames the device
  has accepted, in order; the \<open>k\<close>-th call of \<open>Write\<close> succeeds when \<open>accepts k\<close> holds.
  \<open>layersFail\<close> tells whether \<open>CreateLayers\<close> reports an error on this device.
\<close>

record RawConn =
  written :: "PacketIndicator list"
  attempts :: nat
  accepts :: "nat \<Rightarrow> bool"
  LocalIP :: IP
  RemoteHardwareAddr :: "byte list"
  layersFail :: bool

definition Write :: "RawConn \<Rightarrow> PacketIndicator \<Rightarrow> RawConn \<times> error option" where
  "Write rc data =
     (if accepts rc (attempts rc)
      then (rc\<lparr>attempts := attempts rc + 1, written := written rc @ [data]\<rparr>, None)
      else (rc\<lparr>attempts := attempts rc + 1\<rparr>, Some RawIO))"

text \<open>
  Modelled from the spec: \<open>CreateLayers(src_port, dst_port, seq, ack, raw_conn, dst_ip,
  ip_id, ttl, dst_mac)\<close> builds the transport, network and link headers from its arguments;
  the network header is of the family of the destination and carries no fragment flags.
\<close>

definition CreateLayers ::
  "uint16 \<Rightarrow> uint16 \<Rightarrow> uint32 \<Rightarrow> uint32 \<Rightarrow> RawConn \<Rightarrow> IP \<Rightarrow> uint16 \<Rightarrow> 8 word \<Rightarrow> byte list
     \<Rightarrow> error + TCP \<times> NetworkLayer \<times> LinkLayer option" where
  "CreateLayers srcPort dstPort sq ak conn dstIP ident ttl dstHardwareAddr =
     (if layersFail conn then Inl CreateLayersError
      else Inr (\<lparr>SrcPort = srcPort, DstPort = dstPort, Seq = sq, Ack = ak,
                  SYN = False, FIN = False, ACK = False\<rparr>,
                \<lparr>LayerType = (case dstIP of IPv4Addr _ \<Rightarrow> LayerTypeIPv4
                                           | IPv6Addr _ \<Rightarrow> LayerTypeIPv6),
                  Id = ident, SrcIP = LocalIP conn, DstIP = dstIP, TTL = ttl,
                  DF = False, MF = False, FragOffset = 0, Options = []\<rparr>,
                Some dstHardwareAddr))"

text \<open>Modelled from the spec: \<open>FlagTCPLayer(tcp, syn, fin, ack)\<close> sets the three flags.\<close>

definition FlagTCPLayer :: "TCP \<Rightarrow> bool \<Rightarrow> bool \<Rightarrow> bool \<Rightarrow> TCP" where
  "FlagTCPLayer layer syn fin ackFlag = layer\<lparr>SYN := syn, FIN := fin, ACK := ackFlag\<rparr>"

record Conn =
  conn :: RawConn
  defrag :: EasyDefragmenter
  srcPort :: uint16
  dstAddr :: "(IP \<times> int) option"
  connCrypt :: Crypt
  mtu :: int
  appear :: Time
  isConnected :: bool
  isReconnected :: bool
  isClosed :: bool
  clients :: "AddrString \<rightharpoonup> clientIndicator"
  ident :: uint16
  readDeadline :: Time
  writeDeadline :: Time

text \<open>
  The functions of the connection take the serialiser of the TCP header as their first
  argument \<open>ser\<close>: the bytes \<open>Serialize\<close> makes of a transport layer are the business of
  the packet library.
\<close>

text \<open>
  \<open>Conn.handshakeSYN\<close>. \<open>dstAddr\<close> is a pointer; reading the address through \<open>nil\<close> is the
  panic. The result is the connection afterwards and the error, \<open>None\<close> for \<open>nil\<close>.
\<close>

definition handshakeSYN :: "(TCP \<Rightarrow> byte list) \<Rightarrow> Conn \<Rightarrow> Conn \<times> error option" where
  "handshakeSYN ser c =
     (case dstAddr c of
        None \<Rightarrow> (c, Some Panic)
      | Some (dstIP, dstPort) \<Rightarrow>
          let key = String (TCPAddr dstIP dstPort);
              client = (case clients c key of
                          Some found \<Rightarrow> found
                        | None \<Rightarrow> \<lparr>crypt = connCrypt c, seq = 0, ack = 0\<rparr>);
              c1 = c\<lparr>clients := (clients c)(key \<mapsto> client)\<rparr>
          in case CreateLayers (srcPort c) (word_of_int dstPort) (seq client) (ack client)
                    (conn c) dstIP (ident c) 128 (RemoteHardwareAddr (conn c)) of
               Inl err \<Rightarrow> (c1, Some err)
             | Inr (transportLayer, networkLayer, linkLayer) \<Rightarrow>
                 (let data = Serialize linkLayer networkLayer
                               (ser (FlagTCPLayer transportLayer True False False))
                  in case Write (conn c1) data of
                       (rc, Some err) \<Rightarrow> (c1\<lparr>conn := rc\<rparr>, Some err)
                     | (rc, None) \<Rightarrow>
                         (let c2 = c1\<lparr>conn := rc,
                                       clients := (clients c1)(key \<mapsto> client\<lparr>seq := seq client + 1\<rparr>)\<rparr>
                          in if LayerType networkLayer = LayerTypeIPv4
                             then (c2\<lparr>ident := ident c2 + 1\<rparr>, None)
                             else (c2, None))))"

text \<open>
  \<open>Conn.handshakeSYNACK\<close>. \<open>indicator.TCPLayer()\<close> is \<open>nil\<close> for a packet that is not TCP,
  and reading its sequence number is the panic.
\<close>

definition handshakeSYNACK ::
  "(TCP \<Rightarrow> byte list) \<Rightarrow> Conn \<Rightarrow> Packet \<Rightarrow> Conn \<times> error option" where
  "handshakeSYNACK ser c indicator =
     (let key = String (Src indicator);
          client0 = (case clients c key of
                       Some found \<Rightarrow> found
                     | None \<Rightarrow> \<lparr>crypt = connCrypt c, seq = 0, ack = 0\<rparr>)
      in case TransportLayer indicator of
           UDPLayer sp dp \<Rightarrow> (c\<lparr>clients := (clients c)(key \<mapsto> client0)\<rparr>, Some Panic)
         | TCPLayer tcp \<Rightarrow>
             (let client = client0\<lparr>ack := Seq tcp + 1\<rparr>;
                  c1 = c\<lparr>clients := (clients c)(key \<mapsto> client)\<rparr>
              in case CreateLayers (PacketDstPort indicator) (PacketSrcPort indicator)
                        (seq client) (ack client) (conn c) (PacketSrcIP indicator) (ident c) 64
                        (SrcHardwareAddr indicator) of
                   Inl err \<Rightarrow> (c1, Some err)
                 | Inr (newTransportLayer, newNetworkLayer, newLinkLayer) \<Rightarrow>
                     (let data = Serialize newLinkLayer newNetworkLayer
                                   (ser (FlagTCPLayer newTransportLayer True False True))
                      in case Write (conn c1) data of
                           (rc, Some err) \<Rightarrow> (c1\<lparr>conn := rc\<rparr>, Some err)
                         | (rc, None) \<Rightarrow>
                             (let c2 = c1\<lparr>conn := rc,
                                           clients := (clients c1)
                                             (key \<mapsto> client\<lparr>seq := seq client + 1\<rparr>)\<rparr>
                              in if LayerType newNetworkLayer = LayerTypeIPv4
                                 then (c2\<lparr>ident := ident c2 + 1\<rparr>, None)
                                 else (c2, None)))))"

text \<open>\<open>Conn.handshakeACK\<close>.\<close>

definition handshakeACK ::
  "(TCP \<Rightarrow> byte list) \<Rightarrow> Conn \<Rightarrow> Packet \<Rightarrow> Conn \<times> error option" where
  "handshakeACK ser c indicator =
     (let key = String (Src indicator)
      in case clients c key of
           None \<Rightarrow> (c, Some (Unauthorized key))
         | Some client0 \<Rightarrow>
             (case TransportLayer indicator of
                UDPLayer sp dp \<Rightarrow> (c, Some Panic)
              | TCPLayer tcp \<Rightarrow>
                  (let client = client0\<lparr>ack := Seq tcp + 1\<rparr>;
                       c1 = c\<lparr>clients := (clients c)(key \<mapsto> client)\<rparr>
                   in case CreateLayers (PacketDstPort indicator) (PacketSrcPort indicator)
                             (seq client) (ack client) (conn c) (PacketSrcIP indicator) (ident c)
                             128 (SrcHardwareAddr indicator) of
                        Inl err \<Rightarrow> (c1, Some err)
                      | Inr (newTransportLayer, newNetworkLayer, newLinkLayer) \<Rightarrow>
                          (let data = Serialize newLinkLayer newNetworkLayer
                                        (ser (FlagTCPLayer newTransportLayer False False True))
                           in case Write (conn c1) data of
                                (rc, Some err) \<Rightarrow> (c1\<lparr>conn := rc\<rparr>, Some err)
                              | (rc, None) \<Rightarrow>
                                  (if LayerType newNetworkLayer = LayerTypeIPv4
                                   then (c1\<lparr>conn := rc, ident := ident c1 + 1\<rparr>, None)
                                   else (c1\<lparr>conn := rc\<rparr>, None))))))"

text \<open>
  \<open>copy(dst, src)\<close> overwrites the first \<open>min(len(dst), len(src))\<close> bytes of \<open>dst\<close>; this
  is \<open>dst\<close> afterwards.
\<close>

definition copy :: "byte list \<Rightarrow> byte list \<Rightarrow> byte list" where
  "copy dst src = take (length dst) src @ drop (length src) dst"

text \<open>
  \<open>Conn.ReadFrom\<close>, after \<open>readPacketFrom\<close> has returned: \<open>read\<close> is what it returned,
  either an error with the address it reports (if any) or the packet and its address. The
  result is the connection afterwards, the buffer \<open>p\<close> afterwards, and the three values
  returned. The type assertion \<open>.(*layers.TCP)\<close> on a packet that is not TCP is the
  panic. The packet has been parsed by \<open>readPacketFrom\<close> before, so parsing it again
  gives the same indicator.
\<close>

definition ReadFrom ::
  "(TCP \<Rightarrow> byte list) \<Rightarrow> Conn \<Rightarrow> (Addr option \<times> error) + (Packet \<times> Addr) \<Rightarrow> byte list
     \<Rightarrow> Conn \<times> byte list \<times> nat \<times> Addr option \<times> error option" where
  "ReadFrom ser c read p =
     (case read of
        Inl (a, err) \<Rightarrow> (c, p, 0, a, Some err)
      | Inr (packet, a) \<Rightarrow>
          (case TransportLayer packet of
             UDPLayer sp dp \<Rightarrow> (c, p, 0, Some a, Some Panic)
           | TCPLayer tcp \<Rightarrow>
               if SYN tcp then
                 (case (if ACK tcp
                        then handshakeACK ser (c\<lparr>isConnected := True, isReconnected := True\<rparr>)
                               packet
                        else handshakeSYNACK ser c packet) of
                    (c', err) \<Rightarrow> (c', p, 0, Some a, err))
               else
                 (case ApplicationLayer packet of
                    None \<Rightarrow> (c, p, 0, Some a, None)
                  | Some payload \<Rightarrow>
                      (case clients c (String a) of
                         None \<Rightarrow> (c, p, 0, Some a, Some (Unauthorized (String a)))
                       | Some client \<Rightarrow>
                           (let expectedAck = Seq tcp + of_nat (length payload);
                                client' =
                                  (if expectedAck > ack client \<or>
                                      4294967295 - Seq tcp < of_nat (length payload)
                                   then client\<lparr>ack := expectedAck\<rparr> else client);
                                c1 = c\<lparr>clients := (clients c)(String a \<mapsto> client')\<rparr>
                            in case Decrypt (crypt client') payload of
                                 Inl err \<Rightarrow> (c1, p, 0, Some a, Some err)
                               | Inr contents \<Rightarrow>
                                   (c1, copy p contents, length contents, Some a, None))))))"

text \<open>
  \<open>Time.Sub\<close>: the difference of two instants, saturated at the least and the greatest
  \<open>Duration\<close>.
\<close>

definition Sub :: "Time \<Rightarrow> Time \<Rightarrow> Duration" where
  "Sub t u = max (- (2 ^ 63)) (min (2 ^ 63 - 1) (t - u))"

text \<open>
  The timer goroutines of \<open>readPacketFrom\<close> and of \<open>WriteTo\<close>, started at instant \<open>now\<close>:
  \<open>None\<close> when no timer is started, \<open>Some d\<close> when the timer sleeps for \<open>d\<close> and then
  offers the timeout error on the channel.
\<close>

definition readTimer :: "Conn \<Rightarrow> Time \<Rightarrow> Duration option" where
  "readTimer c now =
     (if readDeadline c \<noteq> 0
      then (let duration = Sub (readDeadline c) now
            in Some (if duration > 0 then duration else 0))
      else None)"

definition writeTimer :: "Conn \<Rightarrow> Time \<Rightarrow> Duration option" where
  "writeTimer c now =
     (if writeDeadline c \<noteq> 0
      then (let duration = Sub (readDeadline c) now
            in Some (if duration > 0 then duration else 0))
      else None)"

text \<open>The loop of \<open>WriteTo\<close> that writes the fragments in order and stops at the first error.\<close>

fun writeFragments :: "RawConn \<Rightarrow> PacketIndicator list \<Rightarrow> RawConn \<times> error option" where
  "writeFragments rc [] = (rc, None)"
| "writeFragments rc (frag # rest) =
     (case Write rc frag of
        (rc', Some err) \<Rightarrow> (rc', Some err)
      | (rc', None) \<Rightarrow> writeFragments rc' rest)"

text \<open>
  The goroutine of \<open>WriteTo\<close> that does the writing. \<open>None\<close> means that it never gets to
  offer a result (the fragmenter does not return); otherwise the result is the connection
  afterwards and the error it offers on the channel. The type assertion
  \<open>linkLayer.(gopacket.Layer)\<close> on \<open>nil\<close> is the panic.
\<close>

definition writeGoroutine ::
  "(TCP \<Rightarrow> byte list) \<Rightarrow> Conn \<Rightarrow> byte list \<Rightarrow> Addr \<Rightarrow> IP \<Rightarrow> uint16
     \<Rightarrow> (Conn \<times> error option) option" where
  "writeGoroutine ser c p addr dstIP dstPort =
     (case clients c (String addr) of
        None \<Rightarrow> Some (c, Some (Unrecognized (String addr)))
      | Some client \<Rightarrow>
          (case CreateLayers (srcPort c) dstPort (seq client) (ack client) (conn c) dstIP
                  (ident c) 128 (RemoteHardwareAddr (conn c)) of
             Inl err \<Rightarrow> Some (c, Some err)
           | Inr (transportLayer, networkLayer, linkLayer) \<Rightarrow>
               (case Encrypt (crypt client) p of
                  Inl err \<Rightarrow> Some (c, Some err)
                | Inr contents \<Rightarrow>
                    (case linkLayer of
                       None \<Rightarrow> Some (c, Some Panic)
                     | Some _ \<Rightarrow>
                         (case CreateFragmentPackets linkLayer networkLayer (ser transportLayer)
                                 contents (mtu c) of
                            None \<Rightarrow> None
                          | Some (Inl err) \<Rightarrow> Some (c, Some err)
                          | Some (Inr fragments) \<Rightarrow>
                              (case writeFragments (conn c) fragments of
                                 (rc, Some err) \<Rightarrow> Some (c\<lparr>conn := rc\<rparr>, Some err)
                               | (rc, None) \<Rightarrow>
                                   (let c1 = c\<lparr>conn := rc,
                                                 clients := (clients c)
                                                   (String addr \<mapsto>
                                                      client\<lparr>seq := seq client +
                                                                of_nat (length contents)\<rparr>)\<rparr>
                                    in if LayerType networkLayer = LayerTypeIPv4
                                       then Some (c1\<lparr>ident := ident c1 + 1\<rparr>, None)
                                       else Some (c1, None))))))))"

text \<open>
  \<open>Conn.WriteTo\<close>, called at instant \<open>now\<close>. The caller receives whatever is offered on the
  channel first. \<open>took\<close> is the time the writing goroutine needs until it offers its
  result; the timer, if one was started, comes first when it sleeps for less than that
  (or when the writing goroutine never offers anything). The writing goroutine runs on
  when the timer has come first, so its effects on the connection are kept. \<open>None\<close> means
  that \<open>WriteTo\<close> does not return.
\<close>

definition WriteTo ::
  "(TCP \<Rightarrow> byte list) \<Rightarrow> Conn \<Rightarrow> byte list \<Rightarrow> Addr \<Rightarrow> Time \<Rightarrow> Duration
     \<Rightarrow> (Conn \<times> (error + nat)) option" where
  "WriteTo ser c p addr now took =
     (case (case addr of
              TCPAddr ip port \<Rightarrow> Some (ip, word_of_int port)
            | UDPAddr ip port \<Rightarrow> Some (ip, word_of_int port)
            | IPAddr ip \<Rightarrow> None) of
        None \<Rightarrow> Some (c, Inl UnsupportedAddressType)
      | Some (dstIP, dstPort) \<Rightarrow>
          (case writeGoroutine ser c p addr dstIP dstPort of
             None \<Rightarrow>
               (case writeTimer c now of
                  None \<Rightarrow> None
                | Some d \<Rightarrow> Some (c, Inl Timeout))
           | Some (c', err) \<Rightarrow>
               (case writeTimer c now of
                  None \<Rightarrow>
                    (case err of Some e \<Rightarrow> Some (c', Inl e) | None \<Rightarrow> Some (c', Inr (length p)))
                | Some d \<Rightarrow>
                    if d < took then Some (c', Inl Timeout)
                    else (case err of
                            Some e \<Rightarrow> Some (c', Inl e)
                          | None \<Rightarrow> Some (c', Inr (length p))))))"







definition keepFragments :: Duration where
  "keepFragments = 30 * 1000000000"

text \<open>
  \<open>dialPassive\<close>. \<open>raw\<close> is the outcome of building the filters and of \<open>CreateRawConn\<close>.
  \<open>newConn\<close> leaves every other field at its zero value.
\<close>

definition dialPassive ::
  "error + RawConn \<Rightarrow> uint16 \<Rightarrow> IP \<times> int \<Rightarrow> Crypt \<Rightarrow> int \<Rightarrow> error + Conn" where
  "dialPassive raw port dst cr m =
     (case raw of
        Inl err \<Rightarrow> Inl err
      | Inr rawConn \<Rightarrow>
          Inr \<lparr>conn = rawConn, defrag = SetDeadline NewEasyDefragmenter keepFragments,
               srcPort = port, dstAddr = Some dst, connCrypt = cr, mtu = m, appear = 0,
               isConnected = False, isReconnected = False, isClosed = False,
               clients = Map.empty, ident = 0, readDeadline = 0, writeDeadline = 0\<rparr>)"


section \<open>The listener\<close>

record Listener =
  lconn :: RawConn
  lsrcPort :: uint16
  lcrypt :: Crypt
  lmtu :: int
  lclients :: "AddrString \<rightharpoonup> Conn"

text \<open>
  \<open>Listener.Accept\<close>. \<open>read\<close> is the outcome of \<open>ReadPacket\<close> followed by \<open>ParsePacket\<close>,
  \<open>raw\<close> the outcome of opening the raw connection in \<open>dialPassive\<close>. The result is the
  listener afterwards and the pair returned: \<open>Inr None\<close> is \<open>(nil, nil)\<close>. The type
  assertion \<open>indicator.Src().(*net.TCPAddr)\<close> on another kind of address is the panic.
\<close>

definition Accept ::
  "(TCP \<Rightarrow> byte list) \<Rightarrow> Listener \<Rightarrow> error + Packet \<Rightarrow> error + RawConn
     \<Rightarrow> Listener \<times> (error + Conn option)" where
  "Accept ser l read raw =
     (case read of
        Inl err \<Rightarrow> (l, Inl err)
      | Inr indicator \<Rightarrow>
          (case lclients l (String (Src indicator)) of
             Some _ \<Rightarrow> (l, Inr None)
           | None \<Rightarrow>
               (case Src indicator of
                  TCPAddr ip port \<Rightarrow>
                    (case dialPassive raw (lsrcPort l) (ip, port) (lcrypt l) (lmtu l) of
                       Inl err \<Rightarrow> (l, Inl err)
                     | Inr conn0 \<Rightarrow>
                         (let conn1 = conn0\<lparr>clients := (clients conn0)
                                        (String (Src indicator) \<mapsto>
                                           \<lparr>crypt = lcrypt l, seq = 0, ack = 0\<rparr>)\<rparr>
                          in case handshakeSYNACK ser conn1 indicator of
                               (conn2, Some err) \<Rightarrow> (l, Inl err)
                             | (conn2, None) \<Rightarrow>
                                 (l\<lparr>lclients := (lclients l)(String (Src indicator) \<mapsto> conn2)\<rparr>,
                                  Inr (Some conn2))))
                | _ \<Rightarrow> (l, Inl Panic))))"

section \<open>Notions used to state the properties\<close>

text \<open>A list of fragments all of whose bodies have a length divisible by 8.\<close>

definition aligned :: "PacketIndicator list \<Rightarrow> bool" where
  "aligned fs = list_all (\<lambda>f. 8 dvd length (NetworkPayload f)) fs"

text \<open>
  The shape the alignment and minimum-tail rules give to a list of fragments: every
  fragment but the last is aligned, and the last of two or more carries 8 bytes at least.
\<close>

definition wellCut :: "PacketIndicator list \<Rightarrow> bool" where
  "wellCut fs =
     (aligned (butlast fs) \<and> (length fs < 2 \<or> 8 \<le> length (NetworkPayload (last fs))))"

text \<open>
  The invariant of the fragmenting loop at cursor \<open>i\<close> with the fragments \<open>acc\<close> cut so
  far: while the loop runs every fragment cut is aligned and, once one has been cut, at
  least 8 bytes are left; when the cursor has reached the end the list is well cut.
\<close>

definition cutInv :: "byte list \<Rightarrow> int \<Rightarrow> PacketIndicator list \<Rightarrow> bool" where
  "cutInv npl i acc =
     (0 \<le> i \<and> i \<le> int (length npl) \<and>
      (if i < int (length npl)
       then aligned acc \<and> (acc = [] \<or> 8 \<le> int (length npl) - i)
       else wellCut acc))"

text \<open>
  \<open>fragmentsFrom link nl npl i fs\<close>: the frames \<open>fs\<close> cut the bytes of \<open>npl\<close> from position
  \<open>i\<close> to the end into consecutive pieces of 8 bytes at least, every piece but the last
  aligned, each under the header \<open>nl\<close> with the fragment offset \<open>i / 8\<close> of its position
  and the MF flag set on all but the last.
\<close>

fun fragmentsFrom ::
  "LinkLayer option \<Rightarrow> NetworkLayer \<Rightarrow> byte list \<Rightarrow> nat \<Rightarrow> PacketIndicator list \<Rightarrow> bool" where
  "fragmentsFrom link nl npl i [] = (i = length npl)"
| "fragmentsFrom link nl npl i (f # fs) =
     (f = Serialize link (FlagIPv4Layer nl False (fs \<noteq> []) (of_nat (i div 8)))
            (take (length (NetworkPayload f)) (drop i npl)) \<and>
      8 \<le> length (NetworkPayload f) \<and>
      i + length (NetworkPayload f) \<le> length npl \<and>
      (fs = [] \<or> 8 dvd length (NetworkPayload f)) \<and>
      fragmentsFrom link nl npl (i + length (NetworkPayload f)) fs)"

text \<open>An IPv4 header without options, as the connection builds it, for the examples.\<close>

definition exampleHeader :: NetworkLayer where
  "exampleHeader =
     \<lparr>LayerType = LayerTypeIPv4, Id = 7, SrcIP = IPv4Addr 0x0A000001, DstIP = IPv4Addr 0x0A000002,
      TTL = 128, DF = False, MF = False, FragOffset = 0, Options = []\<rparr>"

definition exampleFragments :: "PacketIndicator list" where
  "exampleFragments =
     [Serialize None (FlagIPv4Layer exampleHeader False True 0) (replicate 16 0),
      Serialize None (FlagIPv4Layer exampleHeader False True 2) (replicate 16 0),
      Serialize None (FlagIPv4Layer exampleHeader False False 4) (replicate 8 0)]"

text \<open>Examples: ciphers, a connection with one peer, captured packets, a listener.\<close>

definition tinyFragment :: PacketIndicator where
  "tinyFragment = Serialize None (FlagIPv4Layer exampleHeader False True 0) (replicate 4 0)"

definition plainCrypt :: Crypt where
  "plainCrypt = \<lparr>Encrypt = Inr, Decrypt = Inr\<rparr>"

definition paddingCrypt :: Crypt where
  "paddingCrypt = \<lparr>Encrypt = (\<lambda>p. Inr (p @ [0])), Decrypt = (\<lambda>contents. Inr (butlast contents))\<rparr>"

definition exampleSer :: "TCP \<Rightarrow> byte list" where
  "exampleSer t = replicate 20 0"

definition exampleRaw :: RawConn where
  "exampleRaw = \<lparr>written = [], attempts = 0, accepts = (\<lambda>k. True), LocalIP = IPv4Addr 0x0A000001,
                  RemoteHardwareAddr = [2, 0, 0, 0, 0, 2], layersFail = False\<rparr>"

definition examplePeer :: Addr where
  "examplePeer = UDPAddr (IPv4Addr 0x0A000002) 443"

definition exampleClient :: clientIndicator where
  "exampleClient = \<lparr>crypt = plainCrypt, seq = 1, ack = 0xFFFFFFF0\<rparr>"

definition exampleConn :: Conn where
  "exampleConn =
     \<lparr>conn = exampleRaw, defrag = SetDeadline NewEasyDefragmenter keepFragments,
      srcPort = 1000, dstAddr = Some (IPv4Addr 0x0A000002, 443), connCrypt = plainCrypt,
      mtu = 36, appear = 0, isConnected = True, isReconnected = True, isClosed = False,
      clients = [String examplePeer \<mapsto> exampleClient], ident = 1,
      readDeadline = 0, writeDeadline = 0\<rparr>"

definition exampleTCP :: TCP where
  "exampleTCP = \<lparr>SrcPort = 443, DstPort = 1000, Seq = 0xFFFFFFF0, Ack = 1,
                  SYN = False, FIN = False, ACK = True\<rparr>"

definition examplePacket :: Packet where
  "examplePacket = \<lparr>SrcHardwareAddr = [2, 0, 0, 0, 0, 2], PacketSrcIP = IPv4Addr 0x0A000002,
                     TransportLayer = TCPLayer exampleTCP, ApplicationLayer = Some (replicate 32 7)\<rparr>"

definition exampleSYN :: Packet where
  "exampleSYN = \<lparr>SrcHardwareAddr = [2, 0, 0, 0, 0, 2], PacketSrcIP = IPv4Addr 0x0A000002,
                  TransportLayer = TCPLayer (exampleTCP\<lparr>Seq := 0, Ack := 0, SYN := True, ACK := False\<rparr>),
                  ApplicationLayer = None\<rparr>"

definition exampleListener :: Listener where
  "exampleListener = \<lparr>lconn = exampleRaw, lsrcPort = 1000, lcrypt = plainCrypt, lmtu = 1500,
                       lclients = Map.empty\<rparr>"

definition acceptedConn :: Conn where
  "acceptedConn =
     \<lparr>conn = exampleRaw\<lparr>attempts := 1,
              written := [Serialize (Some [2, 0, 0, 0, 0, 2])
                            \<lparr>LayerType = LayerTypeIPv4, Id = 0, SrcIP = IPv4Addr 0x0A000001,
                               DstIP = IPv4Addr 0x0A000002, TTL = 64, DF = False, MF = False,
                               FragOffset = 0, Options = []\<rparr>
                            (replicate 20 0)]\<rparr>,
      defrag = SetDeadline NewEasyDefragmenter keepFragments,
      srcPort = 1000, dstAddr = Some (IPv4Addr 0x0A000002, 443), connCrypt = plainCrypt,
      mtu = 1500, appear = 0, isConnected = False, isReconnected = False, isClosed = False,
      clients = [String examplePeer \<mapsto> \<lparr>crypt = plainCrypt, seq = 1, ack = 1\<rparr>], ident = 1,
      readDeadline = 0, writeDeadline = 0\<rparr>"


text \<open>The IP address of an address.\<close>

fun IPOf :: "Addr \<Rightarrow> IP" where
  "IPOf (TCPAddr ip port) = ip"
| "IPOf (UDPAddr ip port) = ip"
| "IPOf (IPAddr ip) = ip"



text \<open>
  Notions for the round trip. The weight of a fragment is what \<open>append\<close> adds to the
  running length for it; a fragment series is what the fragmenter returns when it cuts:
  strictly increasing offsets, one flow, all but the last marked and at least 8 bytes
  long, the offset of the last equal to the eighth of the bytes before it.
\<close>

definition weight :: "PacketIndicator \<Rightarrow> nat" where
  "weight f = (if MoreFragments f then length (NetworkPayload f) else 0)"

definition flowOf :: "PacketIndicator \<Rightarrow> fragFlow" where
  "flowOf ind = (NetworkId ind, SrcIP (NetworkLayer ind))"

definition fragmentSeries :: "PacketIndicator list \<Rightarrow> bool" where
  "fragmentSeries F =
     (2 \<le> length F \<and> sorted_wrt (<) (map FragOffsetOf F) \<and>
      list_all (\<lambda>f. IsFrag f \<and> flowOf f = flowOf (hd F) \<and>
                     LayerType (NetworkLayer f) = LayerTypeIPv4) F \<and>
      list_all (\<lambda>f. MoreFragments f \<and> 8 \<le> length (NetworkPayload f)) (butlast F) \<and>
      \<not> MoreFragments (last F) \<and>
      unat (FragOffsetOf (last F)) * 8 = sum_list (map weight F) \<and>
      sum_list (map weight F) < 65536)"

text \<open>
  The indicator of a flow after the fragments \<open>xs\<close> of the series \<open>F\<close> were appended to a
  fresh one, and the table of a defragmenter holding it, last touched at \<open>prev\<close>.
\<close>

definition gathered :: "PacketIndicator list \<Rightarrow> PacketIndicator list \<Rightarrow> fragIndicator \<Rightarrow> bool" where
  "gathered F xs fi =
     (length' fi = of_nat (sum_list (map weight xs)) \<and>
      offset fi = (if last F \<in> set xs then FragOffsetOf (last F) else 0) \<and>
      mset (frags fi) = mset xs \<and> sorted (map FragOffsetOf (frags fi)))"

text \<open>No instant of the list is later than \<open>d\<close> after the one before it.\<close>

fun paced :: "Duration \<Rightarrow> Time list \<Rightarrow> bool" where
  "paced d (t # u # ts) = (u - t \<le> d \<and> paced d (u # ts))"
| "paced d _ = True"

definition pending ::
  "PacketIndicator list \<Rightarrow> Time \<Rightarrow> Duration \<Rightarrow> PacketIndicator list \<Rightarrow> EasyDefragmenter \<Rightarrow> bool" where
  "pending F prev d xs dfr =
     (deadline dfr = d \<and>
      (case frags_of dfr (flowOf (hd F)) of
         Some (Some fi) \<Rightarrow> xs \<noteq> [] \<and> gathered F xs fi \<and> lastSeen fi = prev
       | _ \<Rightarrow> xs = []))"

text \<open>What \<open>concatenate\<close> makes of the whole series.\<close>

definition reassembled :: "PacketIndicator list \<Rightarrow> PacketIndicator" where
  "reassembled F =
     Serialize (LinkLayer (hd F)) (FlagIPv4Layer (NetworkLayer (hd F)) False False 0)
       (concat (map NetworkPayload F))"

text \<open>
  Examples for the round trip: the fragments of the 40-byte example out of order, 20 and
  25 seconds apart; the same in order with the last one 31 seconds late; a defragmenter
  with the deadline the connection sets; the fragments of a 65544-byte payload.
\<close>

definition exampleArrivals :: "(Time \<times> PacketIndicator) list" where
  "exampleArrivals =
     [(0, Serialize None (FlagIPv4Layer exampleHeader False False 4) (replicate 8 0)),
      (20000000000, Serialize None (FlagIPv4Layer exampleHeader False True 0) (replicate 16 0)),
      (45000000000, Serialize None (FlagIPv4Layer exampleHeader False True 2) (replicate 16 0))]"

definition lateArrivals :: "(Time \<times> PacketIndicator) list" where
  "lateArrivals =
     [(0, Serialize None (FlagIPv4Layer exampleHeader False True 0) (replicate 16 0)),
      (1000000000, Serialize None (FlagIPv4Layer exampleHeader False True 2) (replicate 16 0)),
      (32000000000, Serialize None (FlagIPv4Layer exampleHeader False False 4) (replicate 8 0))]"

definition exampleDefragmenter :: EasyDefragmenter where
  "exampleDefragmenter = SetDeadline NewEasyDefragmenter keepFragments"

definition bigFragments :: "PacketIndicator list" where
  "bigFragments =
     [Serialize None (FlagIPv4Layer exampleHeader False True 0) (replicate 32768 0),
      Serialize None (FlagIPv4Layer exampleHeader False True 4096) (replicate 32768 0),
      Serialize None (FlagIPv4Layer exampleHeader False False 8192) (replicate 8 0)]"

section \<open>The fragmenting loop\<close>

lemma fl_remain: "fragmentLength room n i = (len, remain) \<Longrightarrow> remain = n - i - len"
  by (auto simp: fragmentLength_def Let_def split: if_splits)

lemma quo8_nonneg: "0 \<le> a \<Longrightarrow> quo a 8 = a div 8"
  by (simp add: quo_def sgn_if)

lemma quo8_dvd: "8 dvd quo a 8 * 8" by simp

lemma quo8_neg: "a < 0 \<Longrightarrow> a \<le> quo a 8 * 8 \<and> quo a 8 * 8 \<le> 0"
  by (simp add: quo_def sgn_if) 

lemma fl_dvd: "fragmentLength room n i = (len, remain) \<Longrightarrow> 0 < remain \<Longrightarrow> 8 dvd len"
  by (auto simp: fragmentLength_def Let_def split: if_splits)

lemma fl_tail: "fragmentLength room n i = (len, remain) \<Longrightarrow> i < n \<Longrightarrow> 0 < remain \<Longrightarrow> 8 \<le> remain"
  apply (cases "min_go room (n - i) < 0")
  using quo8_neg[of "min_go room (n - i)"] 
   apply (auto simp: fragmentLength_def Let_def  split: if_splits)[1]
  using quo8_nonneg[of "min_go room (n - i)"] 
  apply (auto simp: fragmentLength_def Let_def  split: if_splits)
  done

lemma fl_big: "15 \<le> room \<Longrightarrow> 8 \<le> n - i \<Longrightarrow> fragmentLength room n i = (len, remain) \<Longrightarrow> 8 \<le> len \<and> len \<le> n - i \<and> len \<le> room"
  using quo8_nonneg[of "min_go room (n - i)"] 
  by (auto simp: fragmentLength_def Let_def min_go_def split: if_splits)

lemma slice_len: "slice s lo hi = Some b \<Longrightarrow> int (length b) = hi - lo \<and> 0 \<le> lo \<and> hi \<le> int (length s)"
  by (auto simp: slice_def split: if_splits)

lemma cutInv_step:
  assumes fl: "fragmentLength room (int (length npl)) i = (len, remain)"
    and sl: "slice npl i (i + len) = Some body"
    and inv: "cutInv npl i acc" and lt: "i < int (length npl)"
  shows "cutInv npl (i + len) (acc @ [Serialize link nl' body])"
proof -
  have blen: "int (length body) = len" and ile: "i + len \<le> int (length npl)" and len0: "0 \<le> len"
    using slice_len[OF sl] by auto
  have rem: "remain = int (length npl) - i - len" using fl_remain[OF fl] .
  have al: "aligned acc" and tl: "acc \<noteq> [] \<longrightarrow> 8 \<le> int (length npl) - i" and i0: "0 \<le> i"
    using inv lt by (auto simp: cutInv_def)
  show ?thesis
  proof (cases "0 < remain")
    case True
    have d8: "8 dvd len" using fl_dvd[OF fl True] .
    have t8: "8 \<le> remain" using fl_tail[OF fl lt True] .
    have "8 dvd length body" using d8 blen by (metis int_dvd_int_iff of_nat_numeral)
    then have "aligned (acc @ [Serialize link nl' body])" using al 
      by (auto simp: aligned_def Serialize_def)
    then show ?thesis using True t8 rem i0 len0 by (simp add: cutInv_def)
  next
    case False
    with rem ile have iend: "i + len = int (length npl)" by simp
    have "8 \<le> length body" if "acc \<noteq> []" using that tl iend blen by simp
    then have "wellCut (acc @ [Serialize link nl' body])" using al
      by (cases acc) (auto simp: wellCut_def Serialize_def)
    then show ?thesis using iend i0 len0 by (simp add: cutInv_def)
  qed
qed

lemma loop_wellCut:
  assumes "createFragments link nl npl room i acc = Some r"
  shows "cutInv npl i acc \<longrightarrow> (\<forall>fs. r = Inr fs \<longrightarrow> wellCut fs)"
proof (rule createFragments.raw_induct[OF _ assms])
  fix cf :: "LinkLayer option \<Rightarrow> NetworkLayer \<Rightarrow> byte list \<Rightarrow> int \<Rightarrow> int \<Rightarrow> PacketIndicator list
     \<Rightarrow> (error + PacketIndicator list) option"
  fix link nl npl room i acc r
  assume IH: "\<And>link nl npl room i acc r. cf link nl npl room i acc = Some r \<Longrightarrow>
                 cutInv npl i acc \<longrightarrow> (\<forall>fs. r = Inr fs \<longrightarrow> wellCut fs)"
  assume body: "(if i < int (length npl) then
        (case fragmentLength room (int (length npl)) i of
           (len, remain) \<Rightarrow>
             (case LayerType nl of
                LayerTypeIPv4 \<Rightarrow>
                  (let ipv4Layer = FlagIPv4Layer nl False (\<not> remain \<le> 0)
                                     (word_of_int (quo i 8))
                   in case slice npl i (i + len) of
                        None \<Rightarrow> Some (Inl Panic)
                      | Some body \<Rightarrow>
                          cf link ipv4Layer npl room (i + len)
                            (acc @ [Serialize link ipv4Layer body]))
              | t \<Rightarrow> Some (Inl (UnsupportedNetworkLayer t))))
      else Some (Inr acc)) = Some r"
  show "cutInv npl i acc \<longrightarrow> (\<forall>fs. r = Inr fs \<longrightarrow> wellCut fs)"
  proof (cases "i < int (length npl)")
    case False
    then show ?thesis using body by (auto simp: cutInv_def)
  next
    case True
    obtain len remain where fl: "fragmentLength room (int (length npl)) i = (len, remain)"
      by (cases "fragmentLength room (int (length npl)) i")
    show ?thesis
    proof (intro impI allI)
      fix fs assume inv: "cutInv npl i acc" and r: "r = Inr fs"
      from body True fl r obtain body' where sl: "slice npl i (i + len) = Some body'"
        and rec: "cf link (FlagIPv4Layer nl False (\<not> remain \<le> 0) (word_of_int (quo i 8))) npl room (i + len)
                (acc @ [Serialize link (FlagIPv4Layer nl False (\<not> remain \<le> 0) (word_of_int (quo i 8))) body']) = Some r"
        by (auto simp: Let_def split: LayerType.splits option.splits)
      from IH[OF rec] cutInv_step[OF fl sl inv True] r show "wellCut fs" by blast
    qed
  qed
qed

lemma CreateFragmentPackets_wellCut:
  assumes "CreateFragmentPackets link nl th p fragment = Some (Inr fs)"
  shows "wellCut fs"
proof (cases "int (networkLayerDataLen nl) + int (length (th @ p)) > fragment")
  case False
  with assms show ?thesis by (auto simp: CreateFragmentPackets_def Let_def wellCut_def aligned_def)
next
  case True
  with assms have "createFragments link nl (th @ p) (fragment - int (networkLayerDataLen nl)) 0 [] = Some (Inr fs)"
    by (auto simp: CreateFragmentPackets_def Let_def split: LayerType.splits)
  from loop_wellCut[OF this] show ?thesis by (auto simp: cutInv_def aligned_def wellCut_def)
qed

lemma loop_diverges:
  assumes "createFragments link nl npl room i acc = Some r"
  shows "\<not> (LayerType nl = LayerTypeIPv4 \<and> i < int (length npl) \<and> 0 \<le> i \<and> fst (fragmentLength room (int (length npl)) i) = 0)"
proof (rule createFragments.raw_induct[OF _ assms])
  fix cf :: "LinkLayer option \<Rightarrow> NetworkLayer \<Rightarrow> byte list \<Rightarrow> int \<Rightarrow> int \<Rightarrow> PacketIndicator list
     \<Rightarrow> (error + PacketIndicator list) option"
  fix link nl npl room i acc r
  assume IH: "\<And>link nl npl room i acc r. cf link nl npl room i acc = Some r \<Longrightarrow>
     \<not> (LayerType nl = LayerTypeIPv4 \<and> i < int (length npl) \<and> 0 \<le> i \<and> fst (fragmentLength room (int (length npl)) i) = 0)"
  assume body: "(if i < int (length npl) then
        (case fragmentLength room (int (length npl)) i of
           (len, remain) \<Rightarrow>
             (case LayerType nl of
                LayerTypeIPv4 \<Rightarrow>
                  (let ipv4Layer = FlagIPv4Layer nl False (\<not> remain \<le> 0)
                                     (word_of_int (quo i 8))
                   in case slice npl i (i + len) of
                        None \<Rightarrow> Some (Inl Panic)
                      | Some body \<Rightarrow>
                          cf link ipv4Layer npl room (i + len)
                            (acc @ [Serialize link ipv4Layer body]))
              | t \<Rightarrow> Some (Inl (UnsupportedNetworkLayer t))))
      else Some (Inr acc)) = Some r"
  show "\<not> (LayerType nl = LayerTypeIPv4 \<and> i < int (length npl) \<and> 0 \<le> i \<and> fst (fragmentLength room (int (length npl)) i) = 0)"
  proof
    assume a: "LayerType nl = LayerTypeIPv4 \<and> i < int (length npl) \<and> 0 \<le> i \<and> fst (fragmentLength room (int (length npl)) i) = 0"
    then obtain remain where fl: "fragmentLength room (int (length npl)) i = (0, remain)"
      by (cases "fragmentLength room (int (length npl)) i") auto
    have sl: "slice npl i (i + 0) = Some []" using a by (simp add: slice_def)
    from body a fl sl have "cf link (FlagIPv4Layer nl False (\<not> remain \<le> 0) (word_of_int (quo i 8))) npl room i
        (acc @ [Serialize link (FlagIPv4Layer nl False (\<not> remain \<le> 0) (word_of_int (quo i 8))) []]) = Some r"
      by (simp add: Let_def)
    from IH[OF this] a show False by (simp add: FlagIPv4Layer_def)
  qed
qed

lemma fragmentsFrom_header:
  "fragmentsFrom link (FlagIPv4Layer nl df mf off) npl i fs = fragmentsFrom link nl npl i fs"
  by (induction fs arbitrary: i) (simp_all add: FlagIPv4Layer_def)

lemma fragmentsFrom_nonempty: "fragmentsFrom link nl npl i fs \<Longrightarrow> i < length npl \<Longrightarrow> fs \<noteq> []"
  by (cases fs) auto

lemma word_quo8: "word_of_int (quo (int i) 8) = (of_nat (i div 8) :: uint16)"
proof -
  have "int i div 8 = int (i div 8)" by (simp add: zdiv_int)
  then show ?thesis by (simp add: quo8_nonneg)
qed

lemma loop_total:
  assumes room: "15 \<le> room" and ty: "LayerType nl = LayerTypeIPv4"
  shows "8 \<le> length npl - i \<Longrightarrow>
     \<exists>new. createFragments link nl npl room (int i) acc = Some (Inr (acc @ new)) \<and>
            fragmentsFrom link nl npl i new \<and>
            (room < int (length npl) - int i \<longrightarrow> 2 \<le> length new)"
  using ty
proof (induction "length npl - i" arbitrary: i nl acc rule: less_induct)
  case less
  let ?n = "int (length npl)"
  obtain len remain where fl: "fragmentLength room ?n (int i) = (len, remain)"
    by (cases "fragmentLength room ?n (int i)")
  have il: "int i < ?n" using less.prems by simp
  have big: "8 \<le> len \<and> len \<le> ?n - int i \<and> len \<le> room"
    using fl_big[OF room _ fl] less.prems by simp
  have rem: "remain = ?n - int i - len" using fl_remain[OF fl] .
  define l where "l = nat len"
  have l: "len = int l" "8 \<le> l" "i + l \<le> length npl" using big by (auto simp: l_def)
  define body where "body = take l (drop i npl)"
  have sl: "slice npl (int i) (int i + len) = Some body"
    using l by (simp add: slice_def body_def)
  have blen: "length body = l" using l by (simp add: body_def)
  let ?nl' = "FlagIPv4Layer nl False (\<not> remain \<le> 0) (word_of_int (quo (int i) 8))"
  let ?f = "Serialize link ?nl' body"
  have ty': "LayerType ?nl' = LayerTypeIPv4" using less.prems by (simp add: FlagIPv4Layer_def)
  have unf: "createFragments link nl npl room (int i) acc =
             createFragments link ?nl' npl room (int (i + l)) (acc @ [?f])"
    by (subst createFragments.simps) (use sl il fl less.prems in \<open>simp add: l(1) Let_def\<close>)
  show ?case
  proof (cases "0 < remain")
    case True
    then have t8: "8 \<le> remain" using fl_tail[OF fl il] by simp
    have lt: "length npl - (i + l) < length npl - i" using l by simp
    have ge: "8 \<le> length npl - (i + l)" using t8 rem l by simp
    from less.hyps[OF lt ge ty', of "acc @ [?f]"] obtain new where
      new: "createFragments link ?nl' npl room (int (i + l)) (acc @ [?f]) = Some (Inr ((acc @ [?f]) @ new))"
      and ch: "fragmentsFrom link ?nl' npl (i + l) new" by blast
    have ne: "new \<noteq> []" using fragmentsFrom_nonempty[OF ch] ge by simp
    have d8: "8 dvd l" using fl_dvd[OF fl True] l by (metis int_dvd_int_iff of_nat_numeral)
    have "fragmentsFrom link nl npl i (?f # new)"
      using ch ne True l blen d8
      by (simp add: fragmentsFrom_header Serialize_def body_def word_quo8)
    moreover have "2 \<le> length (?f # new)" using ne by (cases new) simp_all
    ultimately show ?thesis using unf new by (intro exI[of _ "?f # new"]) simp
  next
    case False
    then have e: "i + l = length npl" using rem l by simp
    have "createFragments link ?nl' npl room (int (i + l)) (acc @ [?f]) = Some (Inr (acc @ [?f]))"
      by (subst createFragments.simps) (simp add: e)
    moreover have "fragmentsFrom link nl npl i [?f]"
      using False l blen e by (simp add: Serialize_def body_def word_quo8)
    moreover have "\<not> room < int (length npl) - int i" using big e l by simp
    ultimately show ?thesis using unf by (intro exI[of _ "[?f]"]) simp
  qed
qed

lemma CreateFragmentPackets_fragmented:
  assumes "int (networkLayerDataLen nl) + 15 \<le> fragment"
    and "LayerType nl = LayerTypeIPv4"
    and "int (networkLayerDataLen nl) + int (length (th @ p)) > fragment"
  shows "\<exists>fs. CreateFragmentPackets link nl th p fragment = Some (Inr fs) \<and>
              fragmentsFrom link nl (th @ p) 0 fs \<and> 2 \<le> length fs"
proof -
  have "8 \<le> length (th @ p) - 0" using assms by simp
  from loop_total[OF _ assms(2) this, of "fragment - int (networkLayerDataLen nl)" link "[]"] assms
  obtain new where "createFragments link nl (th @ p) (fragment - int (networkLayerDataLen nl)) 0 [] =
      Some (Inr new)" "fragmentsFrom link nl (th @ p) 0 new" "2 \<le> length new" by auto
  with assms show ?thesis by (simp add: CreateFragmentPackets_def Let_def)
qed

lemma CreateFragmentPackets_total:
  assumes "int (networkLayerDataLen nl) + 15 \<le> fragment"
  shows "\<exists>r. CreateFragmentPackets link nl th p fragment = Some r \<and>
     (\<forall>fs. r = Inr fs \<longrightarrow> 2 \<le> length fs \<longrightarrow> fragmentsFrom link nl (th @ p) 0 fs)"
proof (cases "int (networkLayerDataLen nl) + int (length (th @ p)) > fragment")
  case False
  then show ?thesis by (simp add: CreateFragmentPackets_def Let_def)
next
  case True
  show ?thesis
  proof (cases "LayerType nl")
    case LayerTypeIPv6
    with True show ?thesis by (simp add: CreateFragmentPackets_def Let_def)
  next
    case LayerTypeIPv4
    have "8 \<le> length (th @ p) - 0" using True assms by simp
    from loop_total[OF _ LayerTypeIPv4 this, of "fragment - int (networkLayerDataLen nl)" link "[]"] assms
    obtain new where "createFragments link nl (th @ p) (fragment - int (networkLayerDataLen nl)) 0 [] = Some (Inr new)"
      "fragmentsFrom link nl (th @ p) 0 new" by auto
    with True LayerTypeIPv4 show ?thesis by (simp add: CreateFragmentPackets_def Let_def)
  qed
qed

lemma fragmentsFrom_min8: "fragmentsFrom link nl npl i fs \<Longrightarrow> f \<in> set fs \<Longrightarrow> 8 \<le> length (NetworkPayload f)"
  by (induction fs arbitrary: i) auto

lemma createFragments_step:
  "i < int (length npl) \<Longrightarrow> LayerType nl = LayerTypeIPv4 \<Longrightarrow>
   createFragments link nl npl room i acc =
     (case fragmentLength room (int (length npl)) i of
        (len, remain) \<Rightarrow>
          (let ipv4Layer = FlagIPv4Layer nl False (\<not> remain \<le> 0) (word_of_int (quo i 8))
           in case slice npl i (i + len) of
                None \<Rightarrow> Some (Inl Panic)
              | Some body \<Rightarrow>
                  createFragments link ipv4Layer npl room (i + len)
                    (acc @ [Serialize link ipv4Layer body])))"
  by (subst createFragments.simps) simp

lemma createFragments_stop:
  "\<not> i < int (length npl) \<Longrightarrow> createFragments link nl npl room i acc = Some (Inr acc)"
  by (subst createFragments.simps) simp

lemma example_cut:
  "CreateFragmentPackets None exampleHeader [] (replicate 40 0) 36 = Some (Inr exampleFragments)"
  by (simp add: CreateFragmentPackets_def networkLayerDataLen_def exampleHeader_def
      exampleFragments_def createFragments_step createFragments_stop fragmentLength_def
      min_go_def quo_def slice_def Let_def FlagIPv4Layer_def)

lemma fl_big_fst: "15 \<le> room \<Longrightarrow> 8 \<le> n - i \<Longrightarrow> 8 \<le> fst (fragmentLength room n i)"
proof -
  assume a: "15 \<le> room" "8 \<le> n - i"
  obtain len remain where fl: "fragmentLength room n i = (len, remain)"
    by (cases "fragmentLength room n i")
  from fl_big[OF a fl] fl show ?thesis by simp
qed

section \<open>Properties of the fragmenter\<close>

text \<open>
  C2. Whenever \<open>CreateFragmentPackets\<close> returns two or more fragments, the network payload
  of every fragment except the last has a length divisible by 8, and the network payload
  of the last fragment is at least 8 bytes long.
\<close>

theorem fragment_alignment:
  assumes "CreateFragmentPackets linkLayer networkLayer transportLayer payload fragment = Some (Inr fragments)"
    and "2 \<le> length fragments"
  shows "(\<forall>f\<in>set (butlast fragments). 8 dvd length (NetworkPayload f)) \<and>
         8 \<le> length (NetworkPayload (last fragments))"
  using CreateFragmentPackets_wellCut[OF assms(1)] assms(2)
  by (simp add: wellCut_def aligned_def list_all_iff)

theorem fragment_alignment_witness:
  "CreateFragmentPackets None exampleHeader [] (replicate 40 0) 36 = Some (Inr exampleFragments) \<and>
   2 \<le> length exampleFragments \<and>
   list_all (\<lambda>f. 8 dvd length (NetworkPayload f)) (butlast exampleFragments) \<and>
   8 \<le> length (NetworkPayload (last exampleFragments))"
  using fragment_alignment[OF example_cut] example_cut
  by (simp add: exampleFragments_def list_all_iff)

text \<open>
  C10, as amended. \<open>CreateFragmentPackets\<close> returns for every input whose fragment size
  is at least the length of the serialised network header plus 15 (not plus 8), and then
  every fragment of a fragmented result carries at least 8 bytes, that is, every pass of
  the loop advances the cursor by 8 at least: the length cut at a cursor that leaves 8
  bytes or more is 8 at least.
\<close>

theorem fragmenter_terminates:
  assumes "int (networkLayerDataLen networkLayer) + 15 \<le> fragment"
  shows "(\<exists>r. CreateFragmentPackets linkLayer networkLayer transportLayer payload fragment = Some r \<and>
              (\<forall>fs. r = Inr fs \<longrightarrow> 2 \<le> length fs \<longrightarrow> (\<forall>f\<in>set fs. 8 \<le> length (NetworkPayload f)))) \<and>
         (\<forall>n i. 8 \<le> n - i \<longrightarrow>
              8 \<le> fst (fragmentLength (fragment - int (networkLayerDataLen networkLayer)) n i))"
proof
  from CreateFragmentPackets_total[OF assms, of linkLayer transportLayer payload]
  obtain r where r: "CreateFragmentPackets linkLayer networkLayer transportLayer payload fragment = Some r"
    and ch: "\<And>fs. r = Inr fs \<Longrightarrow> 2 \<le> length fs \<Longrightarrow> fragmentsFrom linkLayer networkLayer (transportLayer @ payload) 0 fs"
    by blast
  have "\<forall>fs. r = Inr fs \<longrightarrow> 2 \<le> length fs \<longrightarrow> (\<forall>f\<in>set fs. 8 \<le> length (NetworkPayload f))"
  proof (intro allI impI ballI)
    fix fs f assume "r = Inr fs" "2 \<le> length fs" "f \<in> set fs"
    then show "8 \<le> length (NetworkPayload f)" using fragmentsFrom_min8[OF ch] by simp
  qed
  with r show "\<exists>r. CreateFragmentPackets linkLayer networkLayer transportLayer payload fragment = Some r \<and>
              (\<forall>fs. r = Inr fs \<longrightarrow> 2 \<le> length fs \<longrightarrow> (\<forall>f\<in>set fs. 8 \<le> length (NetworkPayload f)))"
    by (intro exI[of _ r] conjI)
next
  have "15 \<le> fragment - int (networkLayerDataLen networkLayer)" using assms by simp
  then show "\<forall>n i. 8 \<le> n - i \<longrightarrow>
              8 \<le> fst (fragmentLength (fragment - int (networkLayerDataLen networkLayer)) n i)"
    using fl_big_fst by simp
qed

theorem fragmenter_terminates_witness:
  "int (networkLayerDataLen exampleHeader) + 15 \<le> 36 \<and>
   (\<exists>r. CreateFragmentPackets None exampleHeader [] (replicate 40 0) 36 = Some r \<and>
        (\<forall>fs. r = Inr fs \<longrightarrow> 2 \<le> length fs \<longrightarrow>
              (\<forall>f\<in>set fs. 8 \<le> length (NetworkPayload f)))) \<and>
   8 \<le> fst (fragmentLength (36 - int (networkLayerDataLen exampleHeader)) 40 0)"
proof -
  have h: "int (networkLayerDataLen exampleHeader) + 15 \<le> 36"
    by (simp add: networkLayerDataLen_def exampleHeader_def)
  from fragmenter_terminates[OF h, of None "[]" "replicate 40 0"]
  have "(\<exists>r. CreateFragmentPackets None exampleHeader [] (replicate 40 0) 36 = Some r \<and>
        (\<forall>fs. r = Inr fs \<longrightarrow> 2 \<le> length fs \<longrightarrow>
              (\<forall>f\<in>set fs. 8 \<le> length (NetworkPayload f))))"
    and "8 \<le> fst (fragmentLength (36 - int (networkLayerDataLen exampleHeader)) 40 0)"
    by simp_all
  with h show ?thesis by (intro conjI)
qed

text \<open>
  C10 as stated fails. With a 20-byte header, the fragment size 28 (header plus 8) and a
  network payload of 12 bytes, the first pass cuts 8 bytes, sees 4 left over, takes the 8
  bytes back to leave room for the tail and so cuts nothing: the cursor stays at 0 and the
  loop never returns. The same happens up to header plus 14: with the fragment size 34
  and 15 bytes the first pass aligns 14 down to 8, sees 7 left over and cuts nothing.
\<close>

theorem fragmenter_loops_counterexample:
  "int (networkLayerDataLen exampleHeader) + 8 \<le> 28 \<and>
   fst (fragmentLength (28 - int (networkLayerDataLen exampleHeader)) 12 0) = 0 \<and>
   CreateFragmentPackets None exampleHeader [] (replicate 12 0) 28 = None \<and>
   int (networkLayerDataLen exampleHeader) + 14 \<le> 34 \<and>
   fst (fragmentLength (34 - int (networkLayerDataLen exampleHeader)) 15 0) = 0 \<and>
   CreateFragmentPackets None exampleHeader [] (replicate 15 0) 34 = None"
proof -
  have fl: "fst (fragmentLength 8 12 0) = 0" "fst (fragmentLength 14 15 0) = 0"
    by (simp_all add: fragmentLength_def min_go_def quo_def Let_def)
  have "createFragments None exampleHeader (replicate 12 0) 8 0 [] = None"
  proof (cases "createFragments None exampleHeader (replicate 12 0) 8 0 []")
    case (Some r)
    from loop_diverges[OF Some] fl show ?thesis by (simp add: exampleHeader_def)
  qed simp
  moreover have "createFragments None exampleHeader (replicate 15 0) 14 0 [] = None"
  proof (cases "createFragments None exampleHeader (replicate 15 0) 14 0 []")
    case (Some r)
    from loop_diverges[OF Some] fl show ?thesis by (simp add: exampleHeader_def)
  qed simp
  ultimately show ?thesis using fl
    by (simp add: CreateFragmentPackets_def networkLayerDataLen_def exampleHeader_def Let_def)
qed

section \<open>The connection: auxiliary facts\<close>

lemmas ex_defs = plainCrypt_def paddingCrypt_def exampleSer_def exampleRaw_def examplePeer_def
  exampleClient_def exampleConn_def exampleTCP_def examplePacket_def exampleSYN_def exampleListener_def

lemma wrap_test: "4294967295 - s < (w::uint32) \<longleftrightarrow> unat s + unat w > 4294967295"
proof -
  have b: "unat s < 2 ^ 32" using unsigned_less[of s, where 'a = nat] by simp
  then have le: "s \<le> 4294967295" by (simp add: word_le_nat_alt)
  have "unat (4294967295 - s) = 4294967295 - unat s"
    using unat_sub[OF le] by simp
  then show ?thesis using b by (simp add: word_less_nat_alt) linarith
qed

lemma example_read:
  "snd (ReadFrom exampleSer exampleConn (Inr (examplePacket, examplePeer)) (replicate 8 0)) =
     (replicate 8 7, 32, Some examplePeer, None)"
  by (simp add: ReadFrom_def ex_defs Let_def copy_def)

lemma example_accept:
  "Accept exampleSer exampleListener (Inr exampleSYN) (Inr exampleRaw) =
     (exampleListener\<lparr>lclients := [String (Src exampleSYN) \<mapsto> acceptedConn]\<rparr>, Inr (Some acceptedConn))"
  by (simp add: Accept_def ex_defs acceptedConn_def Src_def dialPassive_def handshakeSYNACK_def
      CreateLayers_def Write_def Let_def PacketSrcPort_def PacketDstPort_def FlagTCPLayer_def)

lemma WriteTo_timer_first:
  assumes "writeTimer c now = Some d" and "d < took"
  shows "map_option snd (WriteTo ser c p (UDPAddr ip port) now took) = Some (Inl Timeout)"
  using assms
  by (cases "writeGoroutine ser c p (UDPAddr ip port) ip (word_of_int port)")
     (auto simp: WriteTo_def)

lemma Write_written: "Write rc data = (rc', None) \<Longrightarrow> written rc' = written rc @ [data]"
  by (auto simp: Write_def split: if_splits)

lemma writeFragments_written:
  "writeFragments rc fs = (rc', None) \<Longrightarrow> written rc' = written rc @ fs"
proof (induction fs arbitrary: rc)
  case Nil
  then show ?case by simp
next
  case (Cons f fs)
  obtain rc1 e where w: "Write rc f = (rc1, e)" by (cases "Write rc f")
  with Cons.prems have e: "e = None" and r: "writeFragments rc1 fs = (rc', None)"
    by (auto split: option.splits)
  from Cons.IH[OF r] Write_written[OF w[unfolded e]] show ?case by simp
qed

lemma loop_ids:
  assumes "createFragments link nl npl room i acc = Some r"
  shows "list_all (\<lambda>f. Id (NetworkLayer f) = Id nl) acc \<longrightarrow>
         (\<forall>fs. r = Inr fs \<longrightarrow> list_all (\<lambda>f. Id (NetworkLayer f) = Id nl) fs)"
proof (rule createFragments.raw_induct[OF _ assms])
  fix cf :: "LinkLayer option \<Rightarrow> NetworkLayer \<Rightarrow> byte list \<Rightarrow> int \<Rightarrow> int \<Rightarrow> PacketIndicator list
     \<Rightarrow> (error + PacketIndicator list) option"
  fix link nl npl room i acc r
  assume IH: "\<And>link nl npl room i acc r. cf link nl npl room i acc = Some r \<Longrightarrow>
     list_all (\<lambda>f. Id (NetworkLayer f) = Id nl) acc \<longrightarrow>
         (\<forall>fs. r = Inr fs \<longrightarrow> list_all (\<lambda>f. Id (NetworkLayer f) = Id nl) fs)"
  assume body: "(if i < int (length npl) then
        (case fragmentLength room (int (length npl)) i of
           (len, remain) \<Rightarrow>
             (case LayerType nl of
                LayerTypeIPv4 \<Rightarrow>
                  (let ipv4Layer = FlagIPv4Layer nl False (\<not> remain \<le> 0)
                                     (word_of_int (quo i 8))
                   in case slice npl i (i + len) of
                        None \<Rightarrow> Some (Inl Panic)
                      | Some body \<Rightarrow>
                          cf link ipv4Layer npl room (i + len)
                            (acc @ [Serialize link ipv4Layer body]))
              | t \<Rightarrow> Some (Inl (UnsupportedNetworkLayer t))))
      else Some (Inr acc)) = Some r"
  show "list_all (\<lambda>f. Id (NetworkLayer f) = Id nl) acc \<longrightarrow>
         (\<forall>fs. r = Inr fs \<longrightarrow> list_all (\<lambda>f. Id (NetworkLayer f) = Id nl) fs)"
  proof (cases "i < int (length npl)")
    case False
    then show ?thesis using body by auto
  next
    case True
    obtain len remain where fl: "fragmentLength room (int (length npl)) i = (len, remain)"
      by (cases "fragmentLength room (int (length npl)) i")
    show ?thesis
    proof (intro impI allI)
      fix fs assume inv: "list_all (\<lambda>f. Id (NetworkLayer f) = Id nl) acc" and r: "r = Inr fs"
      let ?nl' = "FlagIPv4Layer nl False (\<not> remain \<le> 0) (word_of_int (quo i 8))"
      from body True fl r obtain body' where
        rec: "cf link ?nl' npl room (i + len) (acc @ [Serialize link ?nl' body']) = Some r"
        by (auto simp: Let_def split: LayerType.splits option.splits)
      have id: "Id ?nl' = Id nl" by (simp add: FlagIPv4Layer_def)
      have "list_all (\<lambda>f. Id (NetworkLayer f) = Id ?nl') (acc @ [Serialize link ?nl' body'])"
        using inv by (simp add: id Serialize_def)
      with IH[OF rec] r show "list_all (\<lambda>f. Id (NetworkLayer f) = Id nl) fs" by (simp add: id)
    qed
  qed
qed

lemma CreateFragmentPackets_ids:
  assumes "CreateFragmentPackets link nl th p fragment = Some (Inr fs)"
  shows "list_all (\<lambda>f. Id (NetworkLayer f) = Id nl) fs"
proof (cases "int (networkLayerDataLen nl) + int (length (th @ p)) > fragment")
  case False
  with assms show ?thesis by (auto simp: CreateFragmentPackets_def Let_def Serialize_def)
next
  case True
  with assms have "createFragments link nl (th @ p) (fragment - int (networkLayerDataLen nl)) 0 [] = Some (Inr fs)"
    by (auto simp: CreateFragmentPackets_def Let_def split: LayerType.splits)
  from loop_ids[OF this] show ?thesis by simp
qed

lemma writeGoroutine_ok:
  assumes "writeGoroutine ser c p addr dstIP dstPort = Some (c', None)"
    and "clients c (String addr) = Some client"
  shows "\<exists>contents fragments tl nl ll.
           Encrypt (crypt client) p = Inr contents \<and>
           CreateLayers (srcPort c) dstPort (seq client) (ack client) (conn c) dstIP (ident c) 128
             (RemoteHardwareAddr (conn c)) = Inr (tl, nl, ll) \<and>
           CreateFragmentPackets ll nl (ser tl) contents (mtu c) = Some (Inr fragments) \<and>
           writeFragments (conn c) fragments = (conn c', None) \<and>
           clients c' = (clients c)(String addr \<mapsto> client\<lparr>seq := seq client + of_nat (length contents)\<rparr>) \<and>
           ident c' = (if LayerType nl = LayerTypeIPv4 then ident c + 1 else ident c)"
proof -
  from assms obtain contents tl nl ll fragments rc where
    e: "Encrypt (crypt client) p = Inr contents"
    and l: "CreateLayers (srcPort c) dstPort (seq client) (ack client) (conn c) dstIP (ident c) 128
             (RemoteHardwareAddr (conn c)) = Inr (tl, nl, ll)"
    and f: "CreateFragmentPackets ll nl (ser tl) contents (mtu c) = Some (Inr fragments)"
    and w: "writeFragments (conn c) fragments = (rc, None)"
    and c': "c' = (let c1 = c\<lparr>conn := rc, clients := (clients c)
                      (String addr \<mapsto> client\<lparr>seq := seq client + of_nat (length contents)\<rparr>)\<rparr>
                  in if LayerType nl = LayerTypeIPv4 then c1\<lparr>ident := ident c1 + 1\<rparr> else c1)"
    by (auto simp: writeGoroutine_def Let_def
        split: sum.splits option.splits prod.splits if_splits)
  have "conn c' = rc" "clients c' = (clients c)
          (String addr \<mapsto> client\<lparr>seq := seq client + of_nat (length contents)\<rparr>)"
    "ident c' = (if LayerType nl = LayerTypeIPv4 then ident c + 1 else ident c)"
    by (simp_all add: c' Let_def)
  with e l f w show ?thesis by auto
qed

lemma WriteTo_ok:
  assumes "WriteTo ser c p addr now took = Some (c', Inr n)"
  shows "\<exists>ip port. (addr = TCPAddr ip port \<or> addr = UDPAddr ip port) \<and>
           writeGoroutine ser c p addr ip (word_of_int port) = Some (c', None) \<and> n = length p"
  using assms
  by (auto simp: WriteTo_def split: Addr.splits option.splits if_splits)

lemma WriteTo_client:
  assumes "WriteTo ser c p addr now took = Some (c', Inr n)"
    and "clients c (String addr) = Some client"
  shows "\<exists>contents. Encrypt (crypt client) p = Inr contents \<and>
           clients c' = (clients c)(String addr \<mapsto> client\<lparr>seq := seq client + of_nat (length contents)\<rparr>)"
proof -
  from WriteTo_ok[OF assms(1)] obtain ip port where
    "writeGoroutine ser c p addr ip (word_of_int port) = Some (c', None)" by blast
  from writeGoroutine_ok[OF this assms(2)] show ?thesis by blast
qed




lemmas run_defs = WriteTo_def writeGoroutine_def CreateLayers_def CreateFragmentPackets_def
  networkLayerDataLen_def writeTimer_def Write_def Let_def Serialize_def FlagTCPLayer_def


lemma example_syn:
  "\<exists>c1. handshakeSYN exampleSer exampleConn = (c1, None)"
  by (simp add: handshakeSYN_def run_defs ex_defs)

lemma example_write:
  "\<exists>c1. WriteTo exampleSer exampleConn (replicate 12 0) examplePeer 0 0 = Some (c1, Inr 12)"
  by (simp add: run_defs ex_defs createFragments_step createFragments_stop fragmentLength_def
      min_go_def quo_def slice_def FlagIPv4Layer_def)

lemma example_synack:
  "\<exists>c3. handshakeSYNACK exampleSer exampleConn exampleSYN = (c3, None)"
  by (simp add: handshakeSYNACK_def run_defs ex_defs Src_def PacketSrcPort_def PacketDstPort_def)

lemma example_ack:
  "\<exists>c4. handshakeACK exampleSer exampleConn exampleSYN = (c4, None)"
  by (simp add: handshakeACK_def run_defs ex_defs Src_def PacketSrcPort_def PacketDstPort_def)

lemma handshakeSYN_id:
  assumes "handshakeSYN ser c = (c', None)" and "dstAddr c = Some (IPv4Addr a, port)"
  shows "ident c' = ident c + 1 \<and>
         (\<exists>data. written (conn c') = written (conn c) @ [data] \<and> Id (NetworkLayer data) = ident c)"
  using assms
  by (auto simp: handshakeSYN_def CreateLayers_def Write_def Serialize_def Let_def
      split: option.splits if_splits)

lemma handshakeSYNACK_id:
  assumes "handshakeSYNACK ser c indicator = (c', None)" and "PacketSrcIP indicator = IPv4Addr a"
  shows "ident c' = ident c + 1 \<and>
         (\<exists>data. written (conn c') = written (conn c) @ [data] \<and> Id (NetworkLayer data) = ident c)"
  using assms
  by (auto simp: handshakeSYNACK_def CreateLayers_def Write_def Serialize_def Let_def
      split: option.splits if_splits TransportLayer.splits)

lemma handshakeACK_id:
  assumes "handshakeACK ser c indicator = (c', None)" and "PacketSrcIP indicator = IPv4Addr a"
  shows "ident c' = ident c + 1 \<and>
         (\<exists>data. written (conn c') = written (conn c) @ [data] \<and> Id (NetworkLayer data) = ident c)"
  using assms
  by (auto simp: handshakeACK_def CreateLayers_def Write_def Serialize_def Let_def
      split: option.splits if_splits TransportLayer.splits)

lemma WriteTo_id:
  assumes "WriteTo ser c p addr now took = Some (c', Inr n)" and "IPOf addr = IPv4Addr a"
  shows "ident c' = ident c + 1 \<and>
         (\<exists>fragments. written (conn c') = written (conn c) @ fragments \<and>
                       list_all (\<lambda>f. Id (NetworkLayer f) = ident c) fragments)"
proof -
  from WriteTo_ok[OF assms(1)] obtain ip port where
    ad: "addr = TCPAddr ip port \<or> addr = UDPAddr ip port"
    and g: "writeGoroutine ser c p addr ip (word_of_int port) = Some (c', None)" by blast
  from ad assms(2) have ip: "ip = IPv4Addr a" by auto
  from g obtain client where cl: "clients c (String addr) = Some client"
    by (auto simp: writeGoroutine_def split: option.splits)
  from writeGoroutine_ok[OF g cl] obtain contents fragments tl nl ll where
    l: "CreateLayers (srcPort c) (word_of_int port) (seq client) (ack client) (conn c) ip (ident c) 128
             (RemoteHardwareAddr (conn c)) = Inr (tl, nl, ll)"
    and f: "CreateFragmentPackets ll nl (ser tl) contents (mtu c) = Some (Inr fragments)"
    and w: "writeFragments (conn c) fragments = (conn c', None)"
    and i: "ident c' = (if LayerType nl = LayerTypeIPv4 then ident c + 1 else ident c)"
    by blast
  from l ip have nl: "LayerType nl = LayerTypeIPv4" "Id nl = ident c"
    by (auto simp: CreateLayers_def split: if_splits)
  from CreateFragmentPackets_ids[OF f] nl have "list_all (\<lambda>f. Id (NetworkLayer f) = ident c) fragments"
    by simp
  with writeFragments_written[OF w] i nl show ?thesis by auto
qed








section \<open>The round trip: auxiliary facts\<close>

lemma series_nonempty: "fragmentSeries F \<Longrightarrow> F \<noteq> []"
  by (auto simp: fragmentSeries_def)

lemma series_member:
  assumes "fragmentSeries F" and "x \<in> set F"
  shows "IsFrag x" "flowOf x = flowOf (hd F)" "LayerType (NetworkLayer x) = LayerTypeIPv4"
  using assms by (auto simp: fragmentSeries_def list_all_iff)

lemma series_more:
  assumes fs: "fragmentSeries F" and x: "x \<in> set F"
  shows "MoreFragments x \<longleftrightarrow> x \<noteq> last F"
proof -
  have ne: "F \<noteq> []" using fs by (rule series_nonempty)
  then have "set F = insert (last F) (set (butlast F))"
    by (metis append_butlast_last_id list.simps(15) rotate1.simps(2) set_rotate1)
  with x have "x = last F \<or> x \<in> set (butlast F)" by auto
  then show ?thesis using fs by (auto simp: fragmentSeries_def list_all_iff)
qed

lemma series_weight:
  assumes fs: "fragmentSeries F" and x: "x \<in> set F" and "x \<noteq> last F"
  shows "8 \<le> weight x"
proof -
  have ne: "F \<noteq> []" using fs by (rule series_nonempty)
  then have "set F = insert (last F) (set (butlast F))"
    by (metis append_butlast_last_id list.simps(15) rotate1.simps(2) set_rotate1)
  with x assms(3) have "x \<in> set (butlast F)" by auto
  then show ?thesis using fs by (auto simp: fragmentSeries_def list_all_iff weight_def)
qed

lemma series_distinct: "fragmentSeries F \<Longrightarrow> distinct F"
proof -
  assume "fragmentSeries F"
  then have "sorted_wrt (<) (map FragOffsetOf F)" by (simp add: fragmentSeries_def)
  then have "distinct (map FragOffsetOf F)" by (simp add: strict_sorted_iff)
  then show "distinct F" by (simp add: distinct_map)
qed

lemma weight_sum_mset: "sum_list (map weight xs) = sum_mset (image_mset weight (mset xs))"
  by (metis mset_map sum_mset_sum_list)

lemma sorted_unique:
  assumes m: "mset ys = mset F" and s: "sorted (map FragOffsetOf ys)"
    and f: "sorted_wrt (<) (map FragOffsetOf F)"
  shows "ys = F"
proof -
  from f have sf: "sorted (map FragOffsetOf F)" and df: "distinct (map FragOffsetOf F)"
    by (simp_all add: strict_sorted_iff)
  from m have "mset (map FragOffsetOf ys) = mset (map FragOffsetOf F)" by simp
  with df have dy: "distinct (map FragOffsetOf ys)" by (metis mset_eq_imp_distinct_iff)
  have se: "set ys = set F" using m by (rule mset_eq_setD)
  from df have "inj_on FragOffsetOf (set F)" by (simp add: distinct_map)
  then have "inj_on FragOffsetOf (set ys \<union> set F)" by (simp add: se)
  from map_sorted_distinct_set_unique[OF this s dy sf df se] show ?thesis .
qed

lemma isCompleted_unat:
  "isCompleted fi \<longleftrightarrow> unat (length' fi) div 8 = unat (offset fi)"
proof -
  have "unat (length' fi div 8) = unat (length' fi) div 8" by (simp add: unat_div)
  then show ?thesis unfolding isCompleted_def by (simp add: word_unat_eq_iff)
qed

lemma gathered_new: "gathered F [] (newFragIndicator now)"
  by (simp add: gathered_def newFragIndicator_def)

lemma gathered_append:
  assumes fs: "fragmentSeries F" and g: "gathered F xs fi" and x: "x \<in> set F"
  shows "gathered F (xs @ [x]) (append_frag fi now x)"
proof -
  have mf: "MoreFragments x \<longleftrightarrow> x \<noteq> last F" using series_more[OF fs x] .
  let ?fi1 = "fi\<lparr>frags := frags fi @ [x], lastSeen := now\<rparr>"
  let ?fi2 = "if MoreFragments x
              then ?fi1\<lparr>length' := length' ?fi1 + of_nat (length (NetworkPayload x))\<rparr>
              else ?fi1\<lparr>offset := FragOffsetOf x\<rparr>"
  have l: "length' ?fi2 = of_nat (sum_list (map weight (xs @ [x])))"
    using g by (simp add: gathered_def weight_def)
  have o: "offset ?fi2 = (if last F \<in> set (xs @ [x]) then FragOffsetOf (last F) else 0)"
    using g mf by (auto simp: gathered_def)
  have m: "mset (frags ?fi2) = mset (xs @ [x])" using g by (simp add: gathered_def)
  have fr: "frags ?fi2 = frags fi @ [x]" by simp
  show ?thesis
  proof (cases "length (frags ?fi2) \<le> 1")
    case True
    then have "frags fi = []" by (simp add: fr)
    then have "sorted (map FragOffsetOf (frags ?fi2))" by (simp add: fr)
    moreover have "append_frag fi now x = ?fi2"
      using True by (simp add: append_frag_def Let_def)
    ultimately show ?thesis using l o m unfolding gathered_def by simp
  next
    case False
    then have a: "append_frag fi now x = ?fi2\<lparr>frags := sort_key FragOffsetOf (frags ?fi2)\<rparr>"
      by (simp add: append_frag_def Let_def)
    have "length' (append_frag fi now x) = length' ?fi2" "offset (append_frag fi now x) = offset ?fi2"
      "mset (frags (append_frag fi now x)) = mset (frags ?fi2)"
      "sorted (map FragOffsetOf (frags (append_frag fi now x)))"
      unfolding a by simp_all
    then show ?thesis using l o m unfolding gathered_def by simp
  qed
qed

lemma lastSeen_append: "lastSeen (append_frag fi now x) = now"
  by (simp add: append_frag_def Let_def)

lemma weight_le:
  assumes "mset ys \<subseteq># mset F"
  shows "sum_list (map weight ys) \<le> sum_list (map weight F)"
proof -
  from assms obtain D where "mset F = mset ys + D" by (auto simp: mset_subset_eq_exists_conv)
  then show ?thesis by (simp add: weight_sum_mset)
qed

lemma completion_test:
  assumes fs: "fragmentSeries F" and g: "gathered F ys fi"
    and sub: "mset ys \<subseteq># mset F" and ne: "ys \<noteq> []"
  shows "isCompleted fi \<longleftrightarrow> mset ys = mset F"
proof -
  let ?S = "sum_list (map weight F)" and ?s = "sum_list (map weight ys)"
  have S: "unat (FragOffsetOf (last F)) * 8 = ?S" "?S < 65536"
    using fs by (simp_all add: fragmentSeries_def)
  have le: "?s \<le> ?S" using weight_le[OF sub] .
  have ul: "unat (length' fi) = ?s" using g le S by (simp add: gathered_def unat_of_nat)
  have Fne: "F \<noteq> []" using fs by (rule series_nonempty)
  have sy: "set ys \<subseteq> set F" using sub by (metis set_mset_mono set_mset_mset)
  from sub obtain D where D: "mset F = mset ys + D" by (auto simp: mset_subset_eq_exists_conv)
  have SD: "?S = ?s + sum_mset (image_mset weight D)" using D by (simp add: weight_sum_mset)
  show ?thesis
  proof (cases "last F \<in> set ys")
    case True
    then have off: "unat (offset fi) * 8 = ?S" using g S by (simp add: gathered_def)
    show ?thesis
    proof
      assume "mset ys = mset F"
      then have "?s = ?S" by (simp add: weight_sum_mset)
      then show "isCompleted fi" using off ul by (simp add: isCompleted_unat)
    next
      assume c: "isCompleted fi"
      show "mset ys = mset F"
      proof (rule ccontr)
        assume "mset ys \<noteq> mset F"
        with D have "D \<noteq> {#}" by auto
        then obtain y where y: "y \<in># D" by auto
        have yF: "y \<in> set F" using y D by (metis set_mset_mset union_iff)
        have "count (mset F) (last F) = 1"
          using series_distinct[OF fs] Fne by (simp add: distinct_count_atmost_1)
        moreover have "count (mset ys) (last F) \<ge> 1" using True by (simp add: count_greater_zero_iff Suc_leI)
        ultimately have "count D (last F) = 0" using D by (metis add_le_same_cancel1 count_union le_zero_eq)
        then have "y \<noteq> last F" using y by (auto simp: count_eq_zero_iff)
        from series_weight[OF fs yF this] have "8 \<le> weight y" .
        moreover have "weight y \<le> sum_mset (image_mset weight D)"
          using y by (metis insert_DiffM image_mset_add_mset sum_mset.add_mset le_add1)
        ultimately have "?s + 8 \<le> ?S" using SD by simp
        then have "?s div 8 < unat (offset fi)" using off by arith
        with c ul show False by (simp add: isCompleted_unat)
      qed
    qed
  next
    case False
    then have off: "offset fi = 0" using g by (simp add: gathered_def)
    have nm: "mset ys \<noteq> mset F" using False Fne by (metis last_in_set mset_eq_setD)
    obtain y where y: "y \<in> set ys" using ne by (cases ys) auto
    have "y \<noteq> last F" using y False by auto
    from series_weight[OF fs _ this] y sy have "8 \<le> weight y" by auto
    moreover have "weight y \<le> ?s" using y by (simp add: member_le_sum_list)
    ultimately have "1 \<le> ?s div 8" by arith
    then have "\<not> isCompleted fi" using off ul by (simp add: isCompleted_unat)
    with nm show ?thesis by simp
  qed
qed

lemma concatenate_full:
  assumes fs: "fragmentSeries F" and g: "gathered F ys fi" and m: "mset ys = mset F"
    and c: "isCompleted fi"
  shows "concatenate fi = Inr (reassembled F)"
proof -
  have "sorted_wrt (<) (map FragOffsetOf F)" using fs by (simp add: fragmentSeries_def)
  moreover have "mset (frags fi) = mset F" "sorted (map FragOffsetOf (frags fi))"
    using g m by (simp_all add: gathered_def)
  ultimately have fr: "frags fi = F" by (metis sorted_unique)
  obtain f rest where F: "F = f # rest" using series_nonempty[OF fs] by (cases F) auto
  have "LayerType (NetworkLayer f) = LayerTypeIPv4" using series_member(3)[OF fs, of f] F by simp
  then show ?thesis using c fr F by (simp add: concatenate_def reassembled_def Let_def)
qed

lemma Append_step:
  assumes fs: "fragmentSeries F" and p: "pending F prev d xs dfr"
    and sub: "mset (xs @ [x]) \<subseteq># mset F"
    and gap: "xs \<noteq> [] \<Longrightarrow> d \<le> 0 \<or> now - prev \<le> d"
  shows "\<exists>dfr'. Append dfr now x =
            (dfr', if mset (xs @ [x]) = mset F then Inr (Some (reassembled F)) else Inr None) \<and>
            (mset (xs @ [x]) \<noteq> mset F \<longrightarrow> pending F now d (xs @ [x]) dfr')"
proof -
  have xF: "x \<in> set F" using sub by (metis in_set_conv_decomp mset_subset_eqD set_mset_mset)
  have frag: "IsFrag x" and flow: "(NetworkId x, SrcIP (NetworkLayer x)) = flowOf (hd F)"
    using series_member[OF fs xF] by (simp_all add: flowOf_def)
  have dl: "deadline dfr = d" using p by (simp add: pending_def)
  let ?slot = "frags_of dfr (flowOf (hd F))"
  let ?fi0 = "case ?slot of Some (Some found) \<Rightarrow> found | _ \<Rightarrow> newFragIndicator now"
  let ?fi1 = "if deadline dfr > 0 \<and> now - lastSeen ?fi0 > deadline dfr
              then newFragIndicator now else ?fi0"
  have g1: "gathered F xs ?fi1"
  proof (cases "\<exists>fi. ?slot = Some (Some fi)")
    case True
    then obtain fi where s: "?slot = Some (Some fi)" by blast
    with p have g: "gathered F xs fi" and t: "lastSeen fi = prev" and ne: "xs \<noteq> []"
      by (simp_all add: pending_def)
    from gap[OF ne] t have "\<not> (deadline dfr > 0 \<and> now - lastSeen fi > deadline dfr)"
      using dl by auto
    then have "?fi1 = fi" using s by auto
    then show ?thesis using g by simp
  next
    case False
    then have f0: "?fi0 = newFragIndicator now" by (auto split: option.splits)
    from False p have "xs = []" by (auto simp: pending_def split: option.splits)
    moreover have "?fi1 = newFragIndicator now" using f0 by simp
    ultimately show ?thesis using gathered_new by simp
  qed
  let ?fi2 = "append_frag ?fi1 now x"
  have g2: "gathered F (xs @ [x]) ?fi2" using gathered_append[OF fs g1 xF] .
  have ls: "lastSeen ?fi2 = now" by (rule lastSeen_append)
  have ct: "isCompleted ?fi2 \<longleftrightarrow> mset (xs @ [x]) = mset F"
    using completion_test[OF fs g2 sub] by simp
  have unfold: "AppendOriginal dfr now x =
      (if \<not> isCompleted ?fi2
       then (dfr\<lparr>frags_of := (frags_of dfr)(flowOf (hd F) \<mapsto> Some ?fi2)\<rparr>, Inr (None, []))
       else (case concatenate ?fi2 of
               Inl err \<Rightarrow> (dfr\<lparr>frags_of := (frags_of dfr)(flowOf (hd F) \<mapsto> None)\<rparr>, Inl err)
             | Inr indicator \<Rightarrow> (dfr\<lparr>frags_of := (frags_of dfr)(flowOf (hd F) \<mapsto> None)\<rparr>,
                                 Inr (Some indicator, frags ?fi2))))"
    using frag by (simp add: AppendOriginal_def flow Let_def)
  show ?thesis
  proof (cases "mset (xs @ [x]) = mset F")
    case True
    then have c: "isCompleted ?fi2" using ct by simp
    from concatenate_full[OF fs g2 True c]
    have "AppendOriginal dfr now x =
            (dfr\<lparr>frags_of := (frags_of dfr)(flowOf (hd F) \<mapsto> None)\<rparr>,
             Inr (Some (reassembled F), frags ?fi2))"
      using c unfold by simp
    then show ?thesis using True by (simp add: Append_def)
  next
    case False
    then have c: "\<not> isCompleted ?fi2" using ct by simp
    let ?dfr' = "dfr\<lparr>frags_of := (frags_of dfr)(flowOf (hd F) \<mapsto> Some ?fi2)\<rparr>"
    have a: "AppendOriginal dfr now x = (?dfr', Inr (None, []))" using c unfold by simp
    have "pending F now d (xs @ [x]) ?dfr'"
      using g2 ls dl by (simp add: pending_def)
    then show ?thesis using False a by (simp add: Append_def)
  qed
qed

lemma feed_all:
  assumes fs: "fragmentSeries F"
  shows "pending F prev d xs dfr \<Longrightarrow> mset (xs @ map snd as) = mset F \<Longrightarrow> as \<noteq> [] \<Longrightarrow>
         d \<le> 0 \<or> paced d (map fst as) \<Longrightarrow>
         (xs \<noteq> [] \<Longrightarrow> d \<le> 0 \<or> fst (hd as) - prev \<le> d) \<Longrightarrow>
         \<exists>dfr'. feed dfr as =
                  (dfr', replicate (length as - 1) (Inr None) @ [Inr (Some (reassembled F))])"
proof (induction as arbitrary: xs dfr prev)
  case Nil
  then show ?case by simp
next
  case (Cons a rest)
  obtain now x where a: "a = (now, x)" by (cases a)
  have sub: "mset (xs @ [x]) \<subseteq># mset F"
    using Cons.prems(2) a by (metis append.assoc append_Cons append_Nil list.simps(9) mset_append mset_subset_eq_add_left snd_conv)
  have gap: "xs \<noteq> [] \<Longrightarrow> d \<le> 0 \<or> now - prev \<le> d" using Cons.prems(5) a by simp
  from Append_step[OF fs Cons.prems(1) sub gap] obtain dfr1 where
    ap: "Append dfr now x =
           (dfr1, if mset (xs @ [x]) = mset F then Inr (Some (reassembled F)) else Inr None)"
    and pe: "mset (xs @ [x]) \<noteq> mset F \<longrightarrow> pending F now d (xs @ [x]) dfr1" by blast
  show ?case
  proof (cases "rest = []")
    case True
    then have "mset (xs @ [x]) = mset F" using Cons.prems(2) a by simp
    then show ?thesis using ap True a by simp
  next
    case False
    then obtain b rest' where r: "rest = b # rest'" by (cases rest) auto
    have "size (mset (xs @ [x])) < size (mset F)"
      using Cons.prems(2)[symmetric] r a by simp
    then have ne: "mset (xs @ [x]) \<noteq> mset F" by (metis less_irrefl)
    have m: "mset ((xs @ [x]) @ map snd rest) = mset F" using Cons.prems(2) a by simp
    have pc: "d \<le> 0 \<or> paced d (map fst rest)" using Cons.prems(4) r a by auto
    have gp: "d \<le> 0 \<or> fst (hd rest) - now \<le> d" using Cons.prems(4) r a by auto
    from pe ne have pn: "pending F now d (xs @ [x]) dfr1" by simp
    from Cons.IH[OF pn m False pc gp] obtain dfr' where
      "feed dfr1 rest =
         (dfr', replicate (length rest - 1) (Inr None) @ [Inr (Some (reassembled F))])" by blast
    moreover have "replicate (length (a # rest) - 1) (Inr None :: error + PacketIndicator option) =
                     Inr None # replicate (length rest - 1) (Inr None)"
      using r by simp
    ultimately show ?thesis using ap ne a by simp
  qed
qed

lemma ff_concat:
  "fragmentsFrom link nl npl i F \<Longrightarrow> concat (map NetworkPayload F) = drop i npl"
proof (induction F arbitrary: i)
  case Nil
  then show ?case by simp
next
  case (Cons f fs)
  let ?l = "length (NetworkPayload f)"
  from Cons.prems have p: "NetworkPayload f = take ?l (drop i npl)"
    and r: "fragmentsFrom link nl npl (i + ?l) fs"
    by (simp_all add: Serialize_def) (metis PacketIndicator.select_convs(3))
  have "take ?l (drop i npl) @ drop (i + ?l) npl = drop i npl"
    by (metis add.commute append_take_drop_id drop_drop)
  with Cons.IH[OF r] p show ?case by simp
qed

lemma ff_header:
  "fragmentsFrom link nl npl i F \<Longrightarrow> f \<in> set F \<Longrightarrow>
     LinkLayer f = link \<and> flowOf f = (Id nl, SrcIP nl) \<and>
     LayerType (NetworkLayer f) = LayerType nl \<and>
     FlagIPv4Layer (NetworkLayer f) False False 0 = FlagIPv4Layer nl False False 0"
proof (induction F arbitrary: i)
  case Nil
  then show ?case by simp
next
  case (Cons g gs)
  let ?l = "length (NetworkPayload g)"
  from Cons.prems(1) have
    g: "g = Serialize link (FlagIPv4Layer nl False (gs \<noteq> []) (of_nat (i div 8))) (take ?l (drop i npl))"
    and r: "fragmentsFrom link nl npl (i + ?l) gs" by simp_all
  show ?case
  proof (cases "f = g")
    case True
    have "LinkLayer g = link" "NetworkLayer g = FlagIPv4Layer nl False (gs \<noteq> []) (of_nat (i div 8))"
      by (subst g, simp add: Serialize_def)+
    then show ?thesis using True by (simp add: flowOf_def NetworkId_def FlagIPv4Layer_def)
  next
    case False
    with Cons.prems(2) have "f \<in> set gs" by simp
    from Cons.IH[OF r this] show ?thesis .
  qed
qed

lemma ff_head:
  assumes "fragmentsFrom link nl npl i (g # gs)"
  shows "MoreFragments g = (gs \<noteq> [])" and "FragOffsetOf g = of_nat (i div 8)"
    and "8 \<le> length (NetworkPayload g)" and "gs \<noteq> [] \<Longrightarrow> 8 dvd length (NetworkPayload g)"
    and "fragmentsFrom link nl npl (i + length (NetworkPayload g)) gs"
    and "i + length (NetworkPayload g) \<le> length npl"
proof -
  let ?l = "length (NetworkPayload g)"
  from assms have
    g: "g = Serialize link (FlagIPv4Layer nl False (gs \<noteq> []) (of_nat (i div 8))) (take ?l (drop i npl))"
    by simp
  have "NetworkLayer g = FlagIPv4Layer nl False (gs \<noteq> []) (of_nat (i div 8))"
    by (subst g) (simp add: Serialize_def)
  then show "MoreFragments g = (gs \<noteq> [])" "FragOffsetOf g = of_nat (i div 8)"
    by (simp_all add: MoreFragments_def FragOffsetOf_def FlagIPv4Layer_def)
  from assms show "8 \<le> ?l" "gs \<noteq> [] \<Longrightarrow> 8 dvd ?l" "fragmentsFrom link nl npl (i + ?l) gs"
    "i + ?l \<le> length npl" by auto
qed

lemma ff_more:
  "fragmentsFrom link nl npl i F \<Longrightarrow> F \<noteq> [] \<Longrightarrow>
     list_all (\<lambda>f. MoreFragments f \<and> 8 \<le> length (NetworkPayload f)) (butlast F) \<and>
     \<not> MoreFragments (last F)"
proof (induction F arbitrary: i)
  case Nil
  then show ?case by simp
next
  case (Cons g gs)
  note h = ff_head[OF Cons.prems(1)]
  show ?case
  proof (cases "gs = []")
    case True
    then show ?thesis using h(1) by simp
  next
    case False
    from Cons.IH[OF h(5) False] h(1) h(3) False show ?thesis by simp
  qed
qed

lemma unat_offset: "i < 524288 \<Longrightarrow> unat (of_nat (i div 8) :: uint16) = i div 8"
  by (simp add: unat_of_nat)

lemma ff_offsets:
  "fragmentsFrom link nl npl i F \<Longrightarrow> 8 dvd i \<Longrightarrow> length npl < 524288 \<Longrightarrow>
     sorted_wrt (<) (map FragOffsetOf F) \<and> (\<forall>f\<in>set F. i div 8 \<le> unat (FragOffsetOf f))"
proof (induction F arbitrary: i)
  case Nil
  then show ?case by simp
next
  case (Cons g gs)
  note h = ff_head[OF Cons.prems(1)]
  let ?l = "length (NetworkPayload g)"
  have ib: "i < 524288" using h(6) h(3) Cons.prems(3) by simp
  have ug: "unat (FragOffsetOf g) = i div 8" using h(2) unat_offset[OF ib] by simp
  show ?case
  proof (cases "gs = []")
    case True
    then show ?thesis using ug by simp
  next
    case False
    have d: "8 dvd (i + ?l)" using Cons.prems(2) h(4)[OF False] by simp
    from Cons.IH[OF h(5) d Cons.prems(3)] have
      s: "sorted_wrt (<) (map FragOffsetOf gs)"
      and b: "\<forall>f\<in>set gs. (i + ?l) div 8 \<le> unat (FragOffsetOf f)" by simp_all
    have lt: "i div 8 < (i + ?l) div 8" using h(3) Cons.prems(2) by (elim dvdE) simp
    have "\<forall>f\<in>set gs. FragOffsetOf g < FragOffsetOf f"
      using b lt ug by (auto simp: word_less_nat_alt) 
    moreover have "\<forall>f\<in>set (g # gs). i div 8 \<le> unat (FragOffsetOf f)"
      using b lt ug by auto
    ultimately show ?thesis using s by simp
  qed
qed

lemma ff_last:
  "fragmentsFrom link nl npl i F \<Longrightarrow> F \<noteq> [] \<Longrightarrow> 8 dvd i \<Longrightarrow> length npl < 524288 \<Longrightarrow>
     unat (FragOffsetOf (last F)) * 8 = i + sum_list (map weight F) \<and>
     i + sum_list (map weight F) \<le> length npl"
proof (induction F arbitrary: i)
  case Nil
  then show ?case by simp
next
  case (Cons g gs)
  note h = ff_head[OF Cons.prems(1)]
  let ?l = "length (NetworkPayload g)"
  have ib: "i < 524288" using h(6) h(3) Cons.prems(4) by simp
  have ug: "unat (FragOffsetOf g) = i div 8" using h(2) unat_offset[OF ib] by simp
  show ?case
  proof (cases "gs = []")
    case True
    then have "weight g = 0" using h(1) by (simp add: weight_def)
    then show ?thesis using True ug Cons.prems(3) h(6) by simp
  next
    case False
    have d: "8 dvd (i + ?l)" using Cons.prems(3) h(4)[OF False] by simp
    have wg: "weight g = ?l" using h(1) False by (simp add: weight_def)
    from Cons.IH[OF h(5) False d Cons.prems(4)] wg False show ?thesis by simp
  qed
qed

lemma ff_total:
  "fragmentsFrom link nl npl i F \<Longrightarrow> F \<noteq> [] \<Longrightarrow>
     i + sum_list (map weight F) + length (NetworkPayload (last F)) = length npl"
proof (induction F arbitrary: i)
  case Nil
  then show ?case by simp
next
  case (Cons g gs)
  note h = ff_head[OF Cons.prems(1)]
  let ?l = "length (NetworkPayload g)"
  show ?case
  proof (cases "gs = []")
    case True
    then have "weight g = 0" using h(1) by (simp add: weight_def)
    moreover have "i + ?l = length npl" using h(5) True by simp
    ultimately show ?thesis using True by simp
  next
    case False
    have wg: "weight g = ?l" using h(1) False by (simp add: weight_def)
    from Cons.IH[OF h(5) False] wg False show ?thesis by simp
  qed
qed

lemma fragments_series:
  assumes ff: "fragmentsFrom link nl npl 0 F" and two: "2 \<le> length F"
    and n: "length npl < 65544" and ty: "LayerType nl = LayerTypeIPv4"
  shows "fragmentSeries F"
proof -
  have ne: "F \<noteq> []" using two by auto
  have nb: "length npl < 524288" using n by simp
  have hd: "hd F \<in> set F" using ne by simp
  have so: "sorted_wrt (<) (map FragOffsetOf F)" using ff_offsets[OF ff _ nb] by simp
  have mo: "list_all (\<lambda>f. MoreFragments f \<and> 8 \<le> length (NetworkPayload f)) (butlast F)"
    and la: "\<not> MoreFragments (last F)" using ff_more[OF ff ne] by simp_all
  have ls: "unat (FragOffsetOf (last F)) * 8 = sum_list (map weight F)"
    using ff_last[OF ff ne _ nb] by simp
  have "8 \<le> length (NetworkPayload (last F))"
    using fragmentsFrom_min8[OF ff, of "last F"] ne by simp
  with ff_total[OF ff ne] n have lb: "sum_list (map weight F) < 65536" by simp
  obtain g gs where F: "F = g # gs" "gs \<noteq> []" using two by (cases F; cases "tl F") auto
  have "MoreFragments g" "8 \<le> length (NetworkPayload g)" using ff_head[OF ff[unfolded F(1)]] F(2) by simp_all
  then have "8 \<le> weight g" by (simp add: weight_def)
  then have "8 \<le> sum_list (map weight F)" using F(1) by simp
  then have lnz: "FragOffsetOf (last F) \<noteq> 0" using ls by (metis mult_zero_left not_numeral_le_zero unat_eq_0 unsigned_0)
  have isf: "IsFrag f" if "f \<in> set F" for f
  proof (cases "f = last F")
    case True
    then show ?thesis using lnz by (simp add: IsFrag_def)
  next
    case False
    have "set F = insert (last F) (set (butlast F))"
      using ne by (metis append_butlast_last_id list.simps(15) rotate1.simps(2) set_rotate1)
    with that False have "f \<in> set (butlast F)" by auto
    then show ?thesis using mo by (auto simp: IsFrag_def list_all_iff)
  qed
  have "list_all (\<lambda>f. IsFrag f \<and> flowOf f = flowOf (hd F) \<and>
                     LayerType (NetworkLayer f) = LayerTypeIPv4) F"
    using ty isf ff_header[OF ff] hd by (simp add: list_all_iff)
  then show ?thesis
    using two so mo la ls lb by (simp add: fragmentSeries_def)
qed

lemma feed_whole:
  assumes "\<not> IsFrag f" and "mset (map snd arrivals) = mset [f]"
  shows "feed dfr arrivals = (dfr, [Inr (Some f)])"
proof -
  from assms(2) have "map snd arrivals = [f]" by (metis mset.simps(1) mset.simps(2) mset_single_iff_right mset_zero_iff_right list.exhaust)
  then obtain t where "arrivals = [(t, f)]" by (cases arrivals) auto
  then show ?thesis using assms(1) by (simp add: Append_def AppendOriginal_def)
qed


lemma stalled_cut:
  "CreateFragmentPackets None exampleHeader (replicate 8 0) (replicate 7 0) 34 = None"
proof -
  have fl: "fst (fragmentLength 14 15 0) = 0"
    by (simp add: fragmentLength_def min_go_def quo_def Let_def)
  have "createFragments None exampleHeader (replicate 8 0 @ replicate 7 0) 14 0 [] = None"
  proof (cases "createFragments None exampleHeader (replicate 8 0 @ replicate 7 0) 14 0 []")
    case (Some r)
    from loop_diverges[OF Some] fl show ?thesis by (simp add: exampleHeader_def)
  qed simp
  then show ?thesis
    by (simp add: CreateFragmentPackets_def networkLayerDataLen_def exampleHeader_def Let_def)
qed

lemma late_feed:
  "snd (feed exampleDefragmenter lateArrivals) = [Inr None, Inr None, Inr None]"
  by (simp add: exampleDefragmenter_def lateArrivals_def SetDeadline_def NewEasyDefragmenter_def
      keepFragments_def Append_def AppendOriginal_def IsFrag_def MoreFragments_def FragOffsetOf_def
      NetworkId_def Serialize_def FlagIPv4Layer_def exampleHeader_def newFragIndicator_def
      append_frag_def isCompleted_def Let_def)

lemma big_cut:
  "CreateFragmentPackets None exampleHeader [] (replicate 65544 0) 32788 = Some (Inr bigFragments)"
  by (simp add: CreateFragmentPackets_def networkLayerDataLen_def exampleHeader_def
      bigFragments_def createFragments_step createFragments_stop fragmentLength_def
      min_go_def quo_def slice_def Let_def FlagIPv4Layer_def)

lemma big_feed:
  "snd (feed NewEasyDefragmenter (map (Pair 0) bigFragments)) =
     [Inr None,
      Inr (Some (Serialize None (FlagIPv4Layer exampleHeader False False 0)
                   (replicate 32768 0 @ replicate 32768 0))),
      Inr None]"
  by (simp add: NewEasyDefragmenter_def bigFragments_def
      Append_def AppendOriginal_def IsFrag_def MoreFragments_def FragOffsetOf_def NetworkId_def
      Serialize_def FlagIPv4Layer_def exampleHeader_def newFragIndicator_def append_frag_def
      isCompleted_def concatenate_def Let_def)

section \<open>Properties of the round trip\<close>

text \<open>
  C1, as amended. Let the fragment size be at least the length of the serialised network
  header plus 15 (not plus 8), the network header be an IPv4 header that is not itself
  marked as a fragment, and the transport header and the payload \<open>P\<close> together be shorter
  than 65544 bytes. Then \<open>CreateFragmentPackets\<close> returns, and feeding what it returned to
  \<open>Append\<close> in any order yields exactly one completed packet, on the last arrival and
  nothing before, whose network payload is the transport header followed by \<open>P\<close> and whose
  application payload is \<open>P\<close>, provided that the defragmenter holds no fragments of the
  flow of the datagram when the first one arrives and that, unless the eviction deadline
  is switched off, no fragment arrives later than the deadline after the one before it.
\<close>

theorem fragment_round_trip:
  assumes ty: "LayerType networkLayer = LayerTypeIPv4"
    and nf: "\<not> MF networkLayer \<and> FragOffset networkLayer = 0"
    and big: "int (networkLayerDataLen networkLayer) + 15 \<le> fragment"
    and sz: "length (transportLayer @ payload) < 65544"
  shows "\<exists>fragments.
     CreateFragmentPackets linkLayer networkLayer transportLayer payload fragment =
       Some (Inr fragments) \<and>
     (\<forall>arrivals (defragmenter :: EasyDefragmenter).
        mset (map snd arrivals) = mset fragments \<and>
        (frags_of defragmenter (Id networkLayer, SrcIP networkLayer) = None \<or>
         frags_of defragmenter (Id networkLayer, SrcIP networkLayer) = Some None) \<and>
        (deadline defragmenter \<le> 0 \<or> paced (deadline defragmenter) (map fst arrivals)) \<longrightarrow>
        (\<exists>defragmenter' packet.
           feed defragmenter arrivals =
             (defragmenter', replicate (length fragments - 1) (Inr None) @ [Inr (Some packet)]) \<and>
           NetworkPayload packet = transportLayer @ payload \<and>
           ApplicationPayload (length transportLayer) packet = payload))"
proof (cases "int (networkLayerDataLen networkLayer) + int (length (transportLayer @ payload)) > fragment")
  case False
  let ?f = "Serialize linkLayer networkLayer (transportLayer @ payload)"
  have c: "CreateFragmentPackets linkLayer networkLayer transportLayer payload fragment = Some (Inr [?f])"
    using False by (simp add: CreateFragmentPackets_def Let_def)
  have nfr: "\<not> IsFrag ?f" using nf by (simp add: IsFrag_def MoreFragments_def FragOffsetOf_def Serialize_def)
  have p: "NetworkPayload ?f = transportLayer @ payload"
    "ApplicationPayload (length transportLayer) ?f = payload"
    by (simp_all add: Serialize_def ApplicationPayload_def)
  show ?thesis
  proof (intro exI[of _ "[?f]"] conjI allI impI)
    show "CreateFragmentPackets linkLayer networkLayer transportLayer payload fragment = Some (Inr [?f])"
      by (rule c)
  next
    fix arrivals :: "(Time \<times> PacketIndicator) list" and defragmenter :: EasyDefragmenter
    assume "mset (map snd arrivals) = mset [?f] \<and>
        (frags_of defragmenter (Id networkLayer, SrcIP networkLayer) = None \<or>
         frags_of defragmenter (Id networkLayer, SrcIP networkLayer) = Some None) \<and>
        (deadline defragmenter \<le> 0 \<or> paced (deadline defragmenter) (map fst arrivals))"
    then have "mset (map snd arrivals) = mset [?f]" by simp
    from feed_whole[OF nfr this, of defragmenter] p
    show "\<exists>defragmenter' packet.
           feed defragmenter arrivals =
             (defragmenter', replicate (length [?f] - 1) (Inr None) @ [Inr (Some packet)]) \<and>
           NetworkPayload packet = transportLayer @ payload \<and>
           ApplicationPayload (length transportLayer) packet = payload"
      by simp
  qed
next
  case True
  from CreateFragmentPackets_fragmented[OF big ty True, of linkLayer] obtain F where
    c: "CreateFragmentPackets linkLayer networkLayer transportLayer payload fragment = Some (Inr F)"
    and ff: "fragmentsFrom linkLayer networkLayer (transportLayer @ payload) 0 F"
    and two: "2 \<le> length F" by blast
  have fs: "fragmentSeries F" using fragments_series[OF ff two sz ty] .
  have ne: "F \<noteq> []" using two by auto
  have fl: "flowOf (hd F) = (Id networkLayer, SrcIP networkLayer)"
    using ff_header[OF ff, of "hd F"] ne by simp
  have np: "NetworkPayload (reassembled F) = transportLayer @ payload"
    using ff_concat[OF ff] by (simp add: reassembled_def Serialize_def)
  then have ap: "ApplicationPayload (length transportLayer) (reassembled F) = payload"
    by (simp add: ApplicationPayload_def)
  show ?thesis
  proof (intro exI[of _ F] conjI allI impI)
    show "CreateFragmentPackets linkLayer networkLayer transportLayer payload fragment = Some (Inr F)"
      by (rule c)
  next
    fix arrivals :: "(Time \<times> PacketIndicator) list" and defragmenter :: EasyDefragmenter
    assume a: "mset (map snd arrivals) = mset F \<and>
        (frags_of defragmenter (Id networkLayer, SrcIP networkLayer) = None \<or>
         frags_of defragmenter (Id networkLayer, SrcIP networkLayer) = Some None) \<and>
        (deadline defragmenter \<le> 0 \<or> paced (deadline defragmenter) (map fst arrivals))"
    let ?d = "deadline defragmenter"
    have w: "?d \<le> 0 \<or> paced ?d (map fst arrivals)" using a by simp
    have p: "pending F 0 ?d [] defragmenter" using a fl by (auto simp: pending_def)
    have m: "mset ([] @ map snd arrivals) = mset F" using a by simp
    have len: "length arrivals = length F" using a by (metis length_map mset_eq_length)
    then have ane: "arrivals \<noteq> []" using ne by auto
    from feed_all[OF fs p m ane w] obtain dfr' where
      "feed defragmenter arrivals =
         (dfr', replicate (length arrivals - 1) (Inr None) @ [Inr (Some (reassembled F))])"
      by blast
    then show "\<exists>defragmenter' packet.
           feed defragmenter arrivals =
             (defragmenter', replicate (length F - 1) (Inr None) @ [Inr (Some packet)]) \<and>
           NetworkPayload packet = transportLayer @ payload \<and>
           ApplicationPayload (length transportLayer) packet = payload"
      using np ap len by auto
  qed
qed

theorem fragment_round_trip_witness:
  "LayerType exampleHeader = LayerTypeIPv4 \<and>
   (\<not> MF exampleHeader \<and> FragOffset exampleHeader = 0) \<and>
   int (networkLayerDataLen exampleHeader) + 15 \<le> 36 \<and>
   length ([] @ replicate 40 (0::byte)) < 65544 \<and>
   CreateFragmentPackets None exampleHeader [] (replicate 40 0) 36 = Some (Inr exampleFragments) \<and>
   mset (map snd exampleArrivals) = mset exampleFragments \<and>
   frags_of exampleDefragmenter (Id exampleHeader, SrcIP exampleHeader) = None \<and>
   0 < deadline exampleDefragmenter \<and>
   paced (deadline exampleDefragmenter) (map fst exampleArrivals) \<and>
   (\<exists>defragmenter' packet.
      feed exampleDefragmenter exampleArrivals =
        (defragmenter', [Inr None, Inr None, Inr (Some packet)]) \<and>
      NetworkPayload packet = replicate 40 0 \<and>
      ApplicationPayload 0 packet = replicate 40 0)"
proof -
  have h1: "LayerType exampleHeader = LayerTypeIPv4" by (simp add: exampleHeader_def)
  have h2a: "\<not> MF exampleHeader" and h2b: "FragOffset exampleHeader = 0"
    by (simp_all add: exampleHeader_def)
  have h2: "\<not> MF exampleHeader \<and> FragOffset exampleHeader = 0" using h2a h2b by simp
  have h3: "int (networkLayerDataLen exampleHeader) + 15 \<le> 36"
    by (simp add: networkLayerDataLen_def exampleHeader_def)
  have h4: "length ([] @ replicate 40 (0::byte)) < 65544" by simp
  have m: "mset (map snd exampleArrivals) = mset exampleFragments"
    by (simp add: exampleArrivals_def exampleFragments_def)
  have s: "frags_of exampleDefragmenter (Id exampleHeader, SrcIP exampleHeader) = None"
    by (simp add: exampleDefragmenter_def SetDeadline_def NewEasyDefragmenter_def)
  have d: "deadline exampleDefragmenter = 30000000000"
    by (simp add: exampleDefragmenter_def SetDeadline_def keepFragments_def)
  have w: "paced (deadline exampleDefragmenter) (map fst exampleArrivals)"
    by (simp add: exampleArrivals_def d)
  from fragment_round_trip[OF h1 h2 h3 h4, where linkLayer = None] obtain F where
    c: "CreateFragmentPackets None exampleHeader [] (replicate 40 0) 36 = Some (Inr F)"
    and all: "\<forall>arrivals (defragmenter :: EasyDefragmenter).
        mset (map snd arrivals) = mset F \<and>
        (frags_of defragmenter (Id exampleHeader, SrcIP exampleHeader) = None \<or>
         frags_of defragmenter (Id exampleHeader, SrcIP exampleHeader) = Some None) \<and>
        (deadline defragmenter \<le> 0 \<or> paced (deadline defragmenter) (map fst arrivals)) \<longrightarrow>
        (\<exists>defragmenter' packet.
           feed defragmenter arrivals =
             (defragmenter', replicate (length F - 1) (Inr None) @ [Inr (Some packet)]) \<and>
           NetworkPayload packet = [] @ replicate 40 0 \<and>
           ApplicationPayload (length ([] :: byte list)) packet = replicate 40 0)"
    by blast
  from c example_cut have F: "F = exampleFragments" by simp
  have pre: "mset (map snd exampleArrivals) = mset F \<and>
        (frags_of exampleDefragmenter (Id exampleHeader, SrcIP exampleHeader) = None \<or>
         frags_of exampleDefragmenter (Id exampleHeader, SrcIP exampleHeader) = Some None) \<and>
        (deadline exampleDefragmenter \<le> 0 \<or>
         paced (deadline exampleDefragmenter) (map fst exampleArrivals))"
    using m s w F by (intro conjI disjI1 disjI2) simp_all
  from all[THEN spec, THEN spec, THEN mp, OF pre] obtain defragmenter' packet where
    f: "feed exampleDefragmenter exampleArrivals =
          (defragmenter', replicate (length F - 1) (Inr None) @ [Inr (Some packet)])"
    and np: "NetworkPayload packet = [] @ replicate 40 0"
    and ap: "ApplicationPayload (length ([] :: byte list)) packet = replicate 40 0"
    by blast
  have "replicate (length F - 1) (Inr None :: error + PacketIndicator option) = [Inr None, Inr None]"
    by (simp add: F exampleFragments_def)
  with f have f': "feed exampleDefragmenter exampleArrivals =
          (defragmenter', [Inr None, Inr None, Inr (Some packet)])" by simp
  have r: "\<exists>defragmenter' packet.
      feed exampleDefragmenter exampleArrivals =
        (defragmenter', [Inr None, Inr None, Inr (Some packet)]) \<and>
      NetworkPayload packet = replicate 40 0 \<and>
      ApplicationPayload 0 packet = replicate 40 0"
    using f' np ap by (intro exI[of _ defragmenter'] exI[of _ packet]) simp
  have d1: "0 < deadline exampleDefragmenter" by (simp add: d)
  from h1 h2a h2b h3 h4 example_cut m s d1 w r show ?thesis by (intro conjI)
qed

text \<open>
  C1 as stated fails. With a 20-byte header, the fragment size 34 (header plus 14), a
  transport header of 8 bytes and a payload of 7, the fragmenter never returns, so there
  is nothing to reassemble. Where the fragmenter does return, the other two conditions
  are needed. The three fragments of the 40-byte example, the last of them arriving 31
  seconds after the second with the deadline of 30 seconds the connection sets, yield no
  packet at all: the first two are evicted when the third arrives. A payload of 65544
  bytes cut at the fragment size 32788 gives fragments of 32768, 32768 and 8 bytes; the
  16-bit running length of the indicator wraps to 0 on the second, which passes for
  complete against the offset 0 of a final fragment not yet seen, so that a packet of
  65536 bytes is delivered on the second arrival and none on the third.
\<close>

theorem fragment_round_trip_counterexample:
  "int (networkLayerDataLen exampleHeader) + 8 \<le> 34 \<and>
   CreateFragmentPackets None exampleHeader (replicate 8 0) (replicate 7 0) 34 = None \<and>
   CreateFragmentPackets None exampleHeader [] (replicate 40 0) 36 = Some (Inr exampleFragments) \<and>
   mset (map snd lateArrivals) = mset exampleFragments \<and>
   snd (feed exampleDefragmenter lateArrivals) = [Inr None, Inr None, Inr None] \<and>
   int (networkLayerDataLen exampleHeader) + 8 \<le> 32788 \<and>
   CreateFragmentPackets None exampleHeader [] (replicate 65544 0) 32788 = Some (Inr bigFragments) \<and>
   snd (feed NewEasyDefragmenter (map (Pair 0) bigFragments)) =
     [Inr None,
      Inr (Some (Serialize None (FlagIPv4Layer exampleHeader False False 0)
                   (replicate 32768 0 @ replicate 32768 0))),
      Inr None]"
proof -
  have h: "int (networkLayerDataLen exampleHeader) + 8 \<le> 34"
    "int (networkLayerDataLen exampleHeader) + 8 \<le> 32788"
    by (simp_all add: networkLayerDataLen_def exampleHeader_def)
  have m: "mset (map snd lateArrivals) = mset exampleFragments"
    by (simp add: lateArrivals_def exampleFragments_def)
  from h(1) stalled_cut example_cut m late_feed h(2) big_cut big_feed show ?thesis
    by (intro conjI)
qed

section \<open>Properties of the fragment indicator\<close>

text \<open>
  C3. The claim asks that an indicator is complete only when \<open>length / 8 == offset\<close> and a
  final fragment (MF = 0) has been appended. \<open>isCompleted\<close> tests the equation alone, and
  the indicator keeps no record of a final fragment: a fresh indicator is reported
  complete, and so is one that has been given a single non-final fragment of four bytes.
  \<open>Append\<close> therefore hands that lone fragment to the reader as a whole datagram, with
  the MF flag cleared, although no final fragment has arrived.
\<close>

theorem incomplete_fragment_delivered:
  "isCompleted (newFragIndicator 0) \<and> \<not> finalSeen (newFragIndicator 0) \<and>
   MoreFragments tinyFragment \<and> length (NetworkPayload tinyFragment) = 4 \<and>
   isCompleted (append_frag (newFragIndicator 0) 1 tinyFragment) \<and>
   \<not> finalSeen (append_frag (newFragIndicator 0) 1 tinyFragment) \<and>
   snd (Append NewEasyDefragmenter 1 tinyFragment) =
     Inr (Some (Serialize None (FlagIPv4Layer exampleHeader False False 0) (replicate 4 0)))"
  by (simp add: isCompleted_def newFragIndicator_def finalSeen_def append_frag_def tinyFragment_def
      Serialize_def FlagIPv4Layer_def MoreFragments_def FragOffsetOf_def NetworkId_def IsFrag_def
      exampleHeader_def Let_def Append_def AppendOriginal_def NewEasyDefragmenter_def
      concatenate_def)

section \<open>Properties of the connection\<close>

text \<open>
  C4. When \<open>ReadFrom\<close> handles a data packet (TCP, no SYN, with an application layer) from
  a known peer, the peer's \<open>ack\<close> becomes the sum of the packet's sequence number and the
  length of its payload modulo \<open>2^32\<close> exactly when that value is greater than the current
  \<open>ack\<close> or the sum exceeds \<open>2^32 - 1\<close> (which is what \<open>0xFFFFFFFF - seq < len\<close> tests);
  otherwise \<open>ack\<close> is unchanged. So a sum that wraps is stored as the wrapped value.
\<close>

theorem rx_ack_update:
  assumes "TransportLayer packet = TCPLayer tcp" and "\<not> SYN tcp"
    and "ApplicationLayer packet = Some payload" and "length payload < 2 ^ 32"
    and "clients c (String a) = Some client"
  shows "\<exists>client'. clients (fst (ReadFrom ser c (Inr (packet, a)) p)) (String a) = Some client' \<and>
           unat (ack client') =
             (if (unat (Seq tcp) + length payload) mod 2 ^ 32 > unat (ack client) \<or>
                 unat (Seq tcp) + length payload > 2 ^ 32 - 1
              then (unat (Seq tcp) + length payload) mod 2 ^ 32
              else unat (ack client))"
proof -
  let ?w = "of_nat (length payload) :: uint32"
  let ?e = "Seq tcp + ?w"
  have uw: "unat ?w = length payload" using assms(4) by (simp add: unat_of_nat)
  have ue: "unat ?e = (unat (Seq tcp) + length payload) mod 2 ^ 32"
    by (simp add: unat_word_ariths uw)
  have c1: "?e > ack client \<longleftrightarrow> (unat (Seq tcp) + length payload) mod 2 ^ 32 > unat (ack client)"
    by (simp add: word_less_nat_alt ue)
  have c2: "4294967295 - Seq tcp < ?w \<longleftrightarrow> unat (Seq tcp) + length payload > 2 ^ 32 - 1"
    using wrap_test[of "Seq tcp" ?w] uw by simp
  show ?thesis
  proof (cases "?e > ack client \<or> 4294967295 - Seq tcp < ?w")
    case True
    then have "clients (fst (ReadFrom ser c (Inr (packet, a)) p)) (String a) = Some (client\<lparr>ack := ?e\<rparr>)"
      using assms by (auto simp: ReadFrom_def Let_def split: sum.splits)
    then show ?thesis using True c1 c2 ue by auto
  next
    case False
    then have "clients (fst (ReadFrom ser c (Inr (packet, a)) p)) (String a) = Some client"
      using assms by (auto simp: ReadFrom_def Let_def split: sum.splits)
    then show ?thesis using False c1 c2 by auto
  qed
qed

theorem rx_ack_update_witness:
  "TransportLayer examplePacket = TCPLayer exampleTCP \<and> \<not> SYN exampleTCP \<and>
   ApplicationLayer examplePacket = Some (replicate 32 7) \<and>
   length (replicate 32 (7::byte)) < 2 ^ 32 \<and>
   clients exampleConn (String examplePeer) = Some exampleClient \<and>
   (\<exists>client'. clients (fst (ReadFrom exampleSer exampleConn (Inr (examplePacket, examplePeer)) []))
                  (String examplePeer) = Some client' \<and>
              unat (ack client') = 16)"
proof -
  have h1: "TransportLayer examplePacket = TCPLayer exampleTCP" by (simp add: examplePacket_def)
  have h2: "\<not> SYN exampleTCP" by (simp add: exampleTCP_def)
  have h3: "ApplicationLayer examplePacket = Some (replicate 32 7)" by (simp add: examplePacket_def)
  have h4: "length (replicate 32 (7::byte)) < 2 ^ 32" by simp
  have h5: "clients exampleConn (String examplePeer) = Some exampleClient" by (simp add: exampleConn_def)
  have s: "unat (Seq exampleTCP) = 4294967280" "unat (ack exampleClient) = 4294967280"
    by (simp_all add: exampleTCP_def exampleClient_def)
  from rx_ack_update[OF h1 h2 h3 h4 h5, of exampleSer "[]"]
  have "\<exists>client'. clients (fst (ReadFrom exampleSer exampleConn (Inr (examplePacket, examplePeer)) []))
                  (String examplePeer) = Some client' \<and>
              unat (ack client') = 16"
    by (simp add: s)
  with h1 h2 h3 h4 h5 show ?thesis by (intro conjI)
qed

text \<open>
  C9. When \<open>ReadFrom\<close> delivers data without an error, the count it returns is the length
  of the decrypted plaintext, even when that exceeds the length of the buffer; the buffer
  keeps its length and receives only the first \<open>len(buf)\<close> bytes of the plaintext.
\<close>

theorem ReadFrom_returns_plaintext_length:
  assumes "TransportLayer packet = TCPLayer tcp" and "\<not> SYN tcp"
    and "ApplicationLayer packet = Some payload"
    and "clients c (String a) = Some client"
    and "snd (ReadFrom ser c (Inr (packet, a)) p) = (p', n, a', None)"
  shows "\<exists>contents. Decrypt (crypt client) payload = Inr contents \<and> n = length contents \<and>
           p' = take (length p) contents @ drop (length contents) p \<and>
           length p' = length p \<and> a' = Some a"
  using assms
  by (auto simp: ReadFrom_def Let_def copy_def split: sum.splits if_splits)

theorem ReadFrom_returns_plaintext_length_witness:
  "TransportLayer examplePacket = TCPLayer exampleTCP \<and> \<not> SYN exampleTCP \<and>
   ApplicationLayer examplePacket = Some (replicate 32 7) \<and>
   clients exampleConn (String examplePeer) = Some exampleClient \<and>
   snd (ReadFrom exampleSer exampleConn (Inr (examplePacket, examplePeer)) (replicate 8 0)) =
     (replicate 8 7, 32, Some examplePeer, None) \<and>
   (\<exists>contents. Decrypt (crypt exampleClient) (replicate 32 7) = Inr contents \<and>
        32 = length contents \<and>
        replicate 8 7 = take (length (replicate 8 (0::byte))) contents @
                          drop (length contents) (replicate 8 0) \<and>
        length (replicate 8 (7::byte)) = length (replicate 8 (0::byte)) \<and>
        Some examplePeer = Some examplePeer) \<and>
   length (replicate 8 (0::byte)) < 32"
proof -
  have h1: "TransportLayer examplePacket = TCPLayer exampleTCP" by (simp add: examplePacket_def)
  have h2: "\<not> SYN exampleTCP" by (simp add: exampleTCP_def)
  have h3: "ApplicationLayer examplePacket = Some (replicate 32 7)" by (simp add: examplePacket_def)
  have h5: "clients exampleConn (String examplePeer) = Some exampleClient" by (simp add: exampleConn_def)
  note t = ReadFrom_returns_plaintext_length[OF h1 h2 h3 h5 example_read]
  have "length (replicate 8 (0::byte)) < 32" by simp
  with h1 h2 h3 h5 example_read t show ?thesis by (intro conjI)
qed

text \<open>
  C8. The timer that \<open>WriteTo\<close> races against the write is started when the write deadline
  is set, but it sleeps until the read deadline. With a write deadline ten seconds ahead
  and no read deadline the timer fires at once and \<open>WriteTo\<close> returns the timeout error for
  a write that takes a microsecond, whereas the timer of the read path sleeps the ten
  seconds of its own deadline.
\<close>

theorem write_timer_reads_read_deadline:
  "writeTimer (exampleConn\<lparr>readDeadline := 0, writeDeadline := 1010000000000\<rparr>) 1000000000000 = Some 0 \<and>
   readTimer (exampleConn\<lparr>readDeadline := 1010000000000, writeDeadline := 0\<rparr>) 1000000000000 =
     Some 10000000000 \<and>
   map_option snd
     (WriteTo exampleSer (exampleConn\<lparr>readDeadline := 0, writeDeadline := 1010000000000\<rparr>)
        [1, 2, 3] examplePeer 1000000000000 1000) = Some (Inl Timeout)"
proof -
  have w: "writeTimer (exampleConn\<lparr>readDeadline := 0, writeDeadline := 1010000000000\<rparr>)
             1000000000000 = Some 0"
    by (simp add: writeTimer_def Sub_def)
  have r: "readTimer (exampleConn\<lparr>readDeadline := 1010000000000, writeDeadline := 0\<rparr>)
             1000000000000 = Some 10000000000"
    by (simp add: readTimer_def Sub_def)
  from WriteTo_timer_first[OF w, of 1000] w r show ?thesis
    by (simp add: examplePeer_def)
qed




text \<open>
  C6, as amended. The counter \<open>id\<close> of the connection advances once per IPv4 datagram,
  not once per frame: a successful \<open>WriteTo\<close> to an IPv4 address advances it by exactly 1
  however many fragments it writes, and every fragment carries the value the counter had
  before; each of the three handshake packets is one frame under the old value and
  advances the counter by 1.
\<close>

theorem ip_id_once_per_datagram:
  "(WriteTo ser c p addr now took = Some (c1, Inr n) \<and> IPOf addr = IPv4Addr a1 \<longrightarrow>
      ident c1 = ident c + 1 \<and>
      (\<exists>fragments. written (conn c1) = written (conn c) @ fragments \<and>
                    list_all (\<lambda>f. Id (NetworkLayer f) = ident c) fragments)) \<and>
   (handshakeSYN ser c = (c2, None) \<and> dstAddr c = Some (IPv4Addr a2, dport) \<longrightarrow>
      ident c2 = ident c + 1 \<and>
      (\<exists>data. written (conn c2) = written (conn c) @ [data] \<and> Id (NetworkLayer data) = ident c)) \<and>
   (handshakeSYNACK ser c indicator = (c3, None) \<and> PacketSrcIP indicator = IPv4Addr a3 \<longrightarrow>
      ident c3 = ident c + 1 \<and>
      (\<exists>data. written (conn c3) = written (conn c) @ [data] \<and> Id (NetworkLayer data) = ident c)) \<and>
   (handshakeACK ser c indicator = (c4, None) \<and> PacketSrcIP indicator = IPv4Addr a4 \<longrightarrow>
      ident c4 = ident c + 1 \<and>
      (\<exists>data. written (conn c4) = written (conn c) @ [data] \<and> Id (NetworkLayer data) = ident c))"
proof (intro conjI impI)
  assume h: "WriteTo ser c p addr now took = Some (c1, Inr n) \<and> IPOf addr = IPv4Addr a1"
  show "ident c1 = ident c + 1" "\<exists>fragments. written (conn c1) = written (conn c) @ fragments \<and>
                    list_all (\<lambda>f. Id (NetworkLayer f) = ident c) fragments"
    using WriteTo_id[OF conjunct1[OF h] conjunct2[OF h]] by simp_all
next
  assume h: "handshakeSYN ser c = (c2, None) \<and> dstAddr c = Some (IPv4Addr a2, dport)"
  show "ident c2 = ident c + 1"
    "\<exists>data. written (conn c2) = written (conn c) @ [data] \<and> Id (NetworkLayer data) = ident c"
    using handshakeSYN_id[OF conjunct1[OF h] conjunct2[OF h]] by simp_all
next
  assume h: "handshakeSYNACK ser c indicator = (c3, None) \<and> PacketSrcIP indicator = IPv4Addr a3"
  show "ident c3 = ident c + 1"
    "\<exists>data. written (conn c3) = written (conn c) @ [data] \<and> Id (NetworkLayer data) = ident c"
    using handshakeSYNACK_id[OF conjunct1[OF h] conjunct2[OF h]] by simp_all
next
  assume h: "handshakeACK ser c indicator = (c4, None) \<and> PacketSrcIP indicator = IPv4Addr a4"
  show "ident c4 = ident c + 1"
    "\<exists>data. written (conn c4) = written (conn c) @ [data] \<and> Id (NetworkLayer data) = ident c"
    using handshakeACK_id[OF conjunct1[OF h] conjunct2[OF h]] by simp_all
qed

theorem ip_id_once_per_datagram_witness:
  "(\<exists>c1. WriteTo exampleSer exampleConn (replicate 12 0) examplePeer 0 0 = Some (c1, Inr 12) \<and>
      IPOf examplePeer = IPv4Addr 0x0A000002 \<and> ident c1 = ident exampleConn + 1 \<and>
      (\<exists>fragments. written (conn c1) = written (conn exampleConn) @ fragments \<and>
                    list_all (\<lambda>f. Id (NetworkLayer f) = ident exampleConn) fragments)) \<and>
   (\<exists>c2. handshakeSYN exampleSer exampleConn = (c2, None) \<and>
      dstAddr exampleConn = Some (IPv4Addr 0x0A000002, 443) \<and> ident c2 = ident exampleConn + 1 \<and>
      (\<exists>data. written (conn c2) = written (conn exampleConn) @ [data] \<and>
               Id (NetworkLayer data) = ident exampleConn)) \<and>
   (\<exists>c3. handshakeSYNACK exampleSer exampleConn exampleSYN = (c3, None) \<and>
      PacketSrcIP exampleSYN = IPv4Addr 0x0A000002 \<and> ident c3 = ident exampleConn + 1 \<and>
      (\<exists>data. written (conn c3) = written (conn exampleConn) @ [data] \<and>
               Id (NetworkLayer data) = ident exampleConn)) \<and>
   (\<exists>c4. handshakeACK exampleSer exampleConn exampleSYN = (c4, None) \<and>
      PacketSrcIP exampleSYN = IPv4Addr 0x0A000002 \<and> ident c4 = ident exampleConn + 1 \<and>
      (\<exists>data. written (conn c4) = written (conn exampleConn) @ [data] \<and>
               Id (NetworkLayer data) = ident exampleConn))"
proof -
  from example_write obtain c1 where
    w: "WriteTo exampleSer exampleConn (replicate 12 0) examplePeer 0 0 = Some (c1, Inr 12)" by blast
  from example_syn obtain c2 where s: "handshakeSYN exampleSer exampleConn = (c2, None)" by blast
  from example_synack obtain c3 where
    sa: "handshakeSYNACK exampleSer exampleConn exampleSYN = (c3, None)" by blast
  from example_ack obtain c4 where
    a: "handshakeACK exampleSer exampleConn exampleSYN = (c4, None)" by blast
  have ip: "IPOf examplePeer = IPv4Addr 0x0A000002" by (simp add: examplePeer_def)
  have d: "dstAddr exampleConn = Some (IPv4Addr 0x0A000002, 443)" by (simp add: exampleConn_def)
  have src: "PacketSrcIP exampleSYN = IPv4Addr 0x0A000002" by (simp add: exampleSYN_def)
  note t = ip_id_once_per_datagram[where ser = exampleSer and c = exampleConn
      and p = "replicate 12 0" and addr = examplePeer and now = 0 and took = 0 and ?c1.0 = c1
      and n = 12 and ?a1.0 = "0x0A000002" and ?c2.0 = c2 and ?a2.0 = "0x0A000002" and dport = 443
      and indicator = exampleSYN and ?c3.0 = c3 and ?a3.0 = "0x0A000002" and ?c4.0 = c4
      and ?a4.0 = "0x0A000002"]
  from t w ip have 1: "ident c1 = ident exampleConn + 1 \<and>
      (\<exists>fragments. written (conn c1) = written (conn exampleConn) @ fragments \<and>
                    list_all (\<lambda>f. Id (NetworkLayer f) = ident exampleConn) fragments)" by blast
  from t s d have 2: "ident c2 = ident exampleConn + 1 \<and>
      (\<exists>data. written (conn c2) = written (conn exampleConn) @ [data] \<and>
               Id (NetworkLayer data) = ident exampleConn)" by blast
  from t sa src have 3: "ident c3 = ident exampleConn + 1 \<and>
      (\<exists>data. written (conn c3) = written (conn exampleConn) @ [data] \<and>
               Id (NetworkLayer data) = ident exampleConn)" by blast
  from t a src have 4: "ident c4 = ident exampleConn + 1 \<and>
      (\<exists>data. written (conn c4) = written (conn exampleConn) @ [data] \<and>
               Id (NetworkLayer data) = ident exampleConn)" by blast
  show ?thesis
  proof (intro conjI)
    show "\<exists>c1. WriteTo exampleSer exampleConn (replicate 12 0) examplePeer 0 0 = Some (c1, Inr 12) \<and>
      IPOf examplePeer = IPv4Addr 0x0A000002 \<and> ident c1 = ident exampleConn + 1 \<and>
      (\<exists>fragments. written (conn c1) = written (conn exampleConn) @ fragments \<and>
                    list_all (\<lambda>f. Id (NetworkLayer f) = ident exampleConn) fragments)"
      using w ip 1 by (intro exI[of _ c1]) simp
    show "\<exists>c2. handshakeSYN exampleSer exampleConn = (c2, None) \<and>
      dstAddr exampleConn = Some (IPv4Addr 0x0A000002, 443) \<and> ident c2 = ident exampleConn + 1 \<and>
      (\<exists>data. written (conn c2) = written (conn exampleConn) @ [data] \<and>
               Id (NetworkLayer data) = ident exampleConn)"
      using s d 2 by (intro exI[of _ c2]) simp
    show "\<exists>c3. handshakeSYNACK exampleSer exampleConn exampleSYN = (c3, None) \<and>
      PacketSrcIP exampleSYN = IPv4Addr 0x0A000002 \<and> ident c3 = ident exampleConn + 1 \<and>
      (\<exists>data. written (conn c3) = written (conn exampleConn) @ [data] \<and>
               Id (NetworkLayer data) = ident exampleConn)"
      using sa src 3 by (intro exI[of _ c3]) simp
    show "\<exists>c4. handshakeACK exampleSer exampleConn exampleSYN = (c4, None) \<and>
      PacketSrcIP exampleSYN = IPv4Addr 0x0A000002 \<and> ident c4 = ident exampleConn + 1 \<and>
      (\<exists>data. written (conn c4) = written (conn exampleConn) @ [data] \<and>
               Id (NetworkLayer data) = ident exampleConn)"
      using a src 4 by (intro exI[of _ c4]) simp
  qed
qed

text \<open>
  C6 as stated fails: a write of 12 bytes with MTU 36 (20 bytes of IP header, 20 bytes of
  TCP header) puts two frames on the wire and advances the counter by one.
\<close>

theorem fragmented_write_counterexample:
  "\<exists>c1. WriteTo exampleSer exampleConn (replicate 12 0) examplePeer 0 0 = Some (c1, Inr 12) \<and>
     length (written (conn c1)) = length (written (conn exampleConn)) + 2 \<and>
     ident c1 = ident exampleConn + 1"
  by (simp add: run_defs ex_defs createFragments_step createFragments_stop fragmentLength_def
      min_go_def quo_def slice_def FlagIPv4Layer_def)

section \<open>Properties of the listener\<close>

text \<open>
  C7. An \<open>Accept\<close> that reads a SYN from a source already in the table of the listener
  returns \<open>(nil, nil)\<close> and leaves the listener as it was; an \<open>Accept\<close> that returns a
  connection has put it into the table under the source; and \<open>Accept\<close> never removes an
  entry. So once a connection from a source has been accepted, every later SYN from that
  source is answered with \<open>(nil, nil)\<close> and no new entry.
\<close>

theorem duplicate_SYN_suppressed:
  "(lclients l (String (Src indicator)) \<noteq> None \<longrightarrow>
      Accept ser l (Inr indicator) raw = (l, Inr None)) \<and>
   (Accept ser l (Inr indicator) raw = (l', Inr (Some accepted)) \<longrightarrow>
      lclients l' (String (Src indicator)) = Some accepted) \<and>
   (lclients l key \<noteq> None \<longrightarrow> lclients (fst (Accept ser l read raw)) key \<noteq> None)"
proof (intro conjI impI)
  assume "lclients l (String (Src indicator)) \<noteq> None"
  then show "Accept ser l (Inr indicator) raw = (l, Inr None)"
    by (auto simp: Accept_def)
next
  assume "Accept ser l (Inr indicator) raw = (l', Inr (Some accepted))"
  then show "lclients l' (String (Src indicator)) = Some accepted"
    by (auto simp: Accept_def Let_def split: option.splits Addr.splits sum.splits prod.splits)
next
  assume "lclients l key \<noteq> None"
  then show "lclients (fst (Accept ser l read raw)) key \<noteq> None"
    by (auto simp: Accept_def Let_def split: option.splits Addr.splits sum.splits prod.splits)
qed

theorem duplicate_SYN_suppressed_witness:
  "Accept exampleSer exampleListener (Inr exampleSYN) (Inr exampleRaw) =
     (exampleListener\<lparr>lclients := [String (Src exampleSYN) \<mapsto> acceptedConn]\<rparr>, Inr (Some acceptedConn)) \<and>
   lclients (exampleListener\<lparr>lclients := [String (Src exampleSYN) \<mapsto> acceptedConn]\<rparr>)
     (String (Src exampleSYN)) = Some acceptedConn \<and>
   Accept exampleSer (exampleListener\<lparr>lclients := [String (Src exampleSYN) \<mapsto> acceptedConn]\<rparr>)
     (Inr exampleSYN) (Inr exampleRaw) =
     (exampleListener\<lparr>lclients := [String (Src exampleSYN) \<mapsto> acceptedConn]\<rparr>, Inr None)"
proof -
  let ?l' = "exampleListener\<lparr>lclients := [String (Src exampleSYN) \<mapsto> acceptedConn]\<rparr>"
  from duplicate_SYN_suppressed[of exampleListener exampleSYN exampleSer "Inr exampleRaw" ?l' acceptedConn]
    example_accept
  have a: "lclients ?l' (String (Src exampleSYN)) = Some acceptedConn" by blast
  from duplicate_SYN_suppressed[of ?l' exampleSYN exampleSer "Inr exampleRaw"] a
  have b: "Accept exampleSer ?l' (Inr exampleSYN) (Inr exampleRaw) = (?l', Inr None)" by simp
  from example_accept a b show ?thesis by (intro conjI)
qed

end
